theory Spec2Isabelle
  imports Complex_Main "HOL-Library.Log_Nat"
begin

section \<open>JavaScript numbers\<close>

text \<open>
  A JavaScript number is an IEEE 754 binary64 value. Every finite double is a dyadic
  rational, so the result of \<open>+\<close>, \<open>*\<close> and \<open>/\<close> on doubles is the exact rational
  result rounded to the nearest double, ties to the even significand. \<open>fl\<close> is that
  rounding for magnitudes in the normal range (between \<open>2^-1022\<close> and \<open>2^1024\<close>);
  every quantity rounded below lies between \<open>2^-5\<close> and \<open>2^16\<close>.

  \<open>binexp q\<close> is the binary exponent \<open>\<lfloor>log\<^sub>2 q\<rfloor>\<close> of a positive rational, computed from
  the bit lengths of numerator and denominator; the significand has 53 bits, so one unit in
  the last place of \<open>q\<close> is \<open>2 ^ (binexp q - 52)\<close>.
\<close>

definition pow2 :: "int \<Rightarrow> rat" where
  "pow2 e = (if 0 \<le> e then 2 ^ nat e else 1 / 2 ^ nat (- e))"

definition binexp :: "rat \<Rightarrow> int" where
  "binexp q = (let (n, d) = quotient_of q; k = bitlen n - bitlen d
               in if pow2 k \<le> q then k else k - 1)"

definition roundTiesToEven :: "rat \<Rightarrow> int" where
  "roundTiesToEven m = (let f = \<lfloor>m\<rfloor>; r = m - of_int f
     in if r < 1 / 2 then f else if 1 / 2 < r then f + 1 else if even f then f else f + 1)"

definition fl :: "rat \<Rightarrow> rat" where
  "fl q = (if q = 0 then 0
           else let a = \<bar>q\<bar>; u = pow2 (binexp a - 52)
                in sgn q * of_int (roundTiesToEven (a / u)) * u)"

text \<open>A value that is a finite double or \<open>NaN\<close>.\<close>

datatype jsnum = Num rat | NaN

text \<open>
  \<open>Math.pow(2, x)\<close>. ECMAScript fixes the result 1 for a zero exponent and leaves every
  other result to the host's approximation of the power. That approximation is taken as a
  parameter: \<open>host x\<close> is the double that the host's \<open>Math.pow\<close> returns for base 2 and
  the double \<open>x\<close>. \<open>powWithin \<delta> host x\<close> says that the result at \<open>x\<close> is within the
  relative error \<open>\<delta>\<close> of the real power.
\<close>

definition Math_pow :: "(rat \<Rightarrow> rat) \<Rightarrow> rat \<Rightarrow> rat" where
  "Math_pow host x = (if x = 0 then 1 else host x)"

definition powWithin :: "real \<Rightarrow> (rat \<Rightarrow> rat) \<Rightarrow> rat \<Rightarrow> bool" where
  "powWithin \<delta> host x =
     (\<bar>of_rat (Math_pow host x) - 2 powr of_rat x\<bar> \<le> \<delta> * 2 powr of_rat x)"

text \<open>
  The primitive values that a note name read back from JSON can be.
\<close>

datatype jsval = JUndefined | JNull | JBool bool | JNum rat | JStr string


section \<open>utilities.js\<close>

datatype error =
    BpmError                  \<comment> \<open>\<open>Error("BPM must be a positive number")\<close>\<close>
  | InvalidNoteString         \<comment> \<open>\<open>Error("Invalid note name: must be a non-empty string")\<close>\<close>
  | InvalidNoteName string    \<comment> \<open>\<open>Error(`Invalid note name: ${note}. Must be one of: ...`)\<close>\<close>
  | InvalidOctave string      \<comment> \<open>\<open>Error(`Invalid octave: ${octaveStr}. ...`)\<close>\<close>
  | AudioContextError         \<comment> \<open>\<open>Error("Audio context not initialized")\<close>\<close>
  | ColumnIndexError          \<comment> \<open>\<open>Error("Column index must be a non-negative number")\<close>\<close>
  | TypeError                 \<comment> \<open>raised by the host: property read on \<open>undefined\<close>, non-finite audio parameter\<close>

text \<open>
  \<open>isNumberInRange(value, min, max)\<close>. Its callers here pass the result of \<open>parseInt\<close>:
  an integer, or \<open>NaN\<close> (\<open>None\<close>).
\<close>

definition isNumberInRange :: "int option \<Rightarrow> int \<Rightarrow> int \<Rightarrow> bool" where
  "isNumberInRange v lo hi = (case v of None \<Rightarrow> False | Some num \<Rightarrow> lo \<le> num \<and> num \<le> hi)"

text \<open>
  \<open>calculateNoteDuration(bpm, subdivision)\<close> returns \<open>((60 / bpm) * 1000) / subdivision\<close>:
  three double operations, each rounded. The only caller passes the subdivision 4.
\<close>

definition calculateNoteDuration :: "int option \<Rightarrow> int \<Rightarrow> error + rat" where
  "calculateNoteDuration bpm subdivision =
     (if \<not> isNumberInRange bpm 1 1000 then Inl BpmError
      else (case bpm of
              None \<Rightarrow> Inl BpmError
            | Some b \<Rightarrow> Inr (fl (fl (fl (60 / of_int b) * 1000) / of_int subdivision))))"

text \<open>
  The formula the specification gives, \<open>60000 / bpm / 4\<close>, once as the exact quotient and
  once evaluated in double arithmetic as the expression \<open>60_000 / bpm / 4\<close>.
\<close>

definition specColumnDuration :: "int \<Rightarrow> rat" where
  "specColumnDuration bpm = 60000 / of_int bpm / 4"

definition specColumnDurationDouble :: "int \<Rightarrow> rat" where
  "specColumnDurationDouble bpm = fl (fl (60000 / of_int bpm) / 4)"

text \<open>
  \<open>noteToFrequency(noteName)\<close>. \<open>noteMap\<close> is an object literal, and \<open>note in noteMap\<close>
  is true for its own keys and for the property names it inherits from
  \<open>Object.prototype\<close>; for an inherited name \<open>noteMap[note]\<close> is a function or an object,
  and the semitone arithmetic yields \<open>NaN\<close>. The result is
  \<open>440 * Math.pow(2, semitones / 12)\<close> in doubles: the quotient is rounded, the power is
  the host's, the product is rounded.
\<close>

definition noteMap :: "(string \<times> int) list" where
  "noteMap = [(''C'', 0), (''C#'', 1), (''D'', 2), (''D#'', 3), (''E'', 4), (''F'', 5),
              (''F#'', 6), (''G'', 7), (''G#'', 8), (''A'', 9), (''A#'', 10), (''B'', 11)]"

definition objectPrototypeKeys :: "string list" where
  "objectPrototypeKeys = [''constructor'', ''hasOwnProperty'', ''isPrototypeOf'',
     ''propertyIsEnumerable'', ''toLocaleString'', ''toString'', ''valueOf'', ''__proto__'',
     ''__defineGetter__'', ''__defineSetter__'', ''__lookupGetter__'', ''__lookupSetter__'']"

definition inNoteMap :: "string \<Rightarrow> bool" where
  "inNoteMap note = (note \<in> set (map fst noteMap) \<or> note \<in> set objectPrototypeKeys)"

text \<open>\<open>parseInt\<close> of a one-character string: the digit's value, or \<open>NaN\<close>.\<close>

definition parseIntChar :: "char \<Rightarrow> int option" where
  "parseIntChar c = map_of [(CHR ''0'', 0), (CHR ''1'', 1), (CHR ''2'', 2), (CHR ''3'', 3),
     (CHR ''4'', 4), (CHR ''5'', 5), (CHR ''6'', 6), (CHR ''7'', 7), (CHR ''8'', 8),
     (CHR ''9'', 9)] c"

definition noteToFrequency :: "(rat \<Rightarrow> rat) \<Rightarrow> jsval \<Rightarrow> error + jsnum" where
  "noteToFrequency host noteName =
     (case noteName of
        JStr s \<Rightarrow>
          if s = [] then Inl InvalidNoteString
          else
            let note = butlast s;
                octaveStr = [last s];
                octave = parseIntChar (last s)
            in if \<not> inNoteMap note then Inl (InvalidNoteName note)
               else (case octave of
                       None \<Rightarrow> Inl (InvalidOctave octaveStr)
                     | Some oct \<Rightarrow>
                         if oct < 0 \<or> oct > 8 then Inl (InvalidOctave octaveStr)
                         else (case map_of noteMap note of
                                 None \<Rightarrow> Inr NaN
                               | Some i \<Rightarrow>
                                   let semitones = (oct - 4) * 12 + i - 9
                                   in Inr (Num (fl (440 * Math_pow host (fl (of_int semitones / 12)))))))
      | _ \<Rightarrow> Inl InvalidNoteString)"

text \<open>
  The formula the specification gives for the note at \<open>s\<close> semitones from A4,
  \<open>440 * 2^(s/12)\<close>, as the real number it denotes.
\<close>

definition specFrequency :: "int \<Rightarrow> real" where
  "specFrequency s = 440 * 2 powr (of_int s / 12)"


section \<open>config.js\<close>

definition ALL_NOTES :: "string list" where
  "ALL_NOTES =
    [''C8'',
     ''B7'', ''A#7'', ''A7'', ''G#7'', ''G7'', ''F#7'', ''F7'', ''E7'', ''D#7'', ''D7'', ''C#7'', ''C7'',
     ''B6'', ''A#6'', ''A6'', ''G#6'', ''G6'', ''F#6'', ''F6'', ''E6'', ''D#6'', ''D6'', ''C#6'', ''C6'',
     ''B5'', ''A#5'', ''A5'', ''G#5'', ''G5'', ''F#5'', ''F5'', ''E5'', ''D#5'', ''D5'', ''C#5'', ''C5'',
     ''B4'', ''A#4'', ''A4'', ''G#4'', ''G4'', ''F#4'', ''F4'', ''E4'', ''D#4'', ''D4'', ''C#4'', ''C4'',
     ''B3'', ''A#3'', ''A3'', ''G#3'', ''G3'', ''F#3'', ''F3'', ''E3'', ''D#3'', ''D3'', ''C#3'', ''C3'',
     ''B2'', ''A#2'', ''A2'', ''G#2'', ''G2'', ''F#2'', ''F2'', ''E2'', ''D#2'', ''D2'', ''C#2'', ''C2'',
     ''B1'', ''A#1'', ''A1'', ''G#1'', ''G1'', ''F#1'', ''F1'', ''E1'', ''D#1'', ''D1'', ''C#1'', ''C1'',
     ''B0'', ''A#0'', ''A0'']"


section \<open>The sequencer's state\<close>

text \<open>
  One record holds what the playback code reads and writes: the controller's \<open>appState\<close>,
  the controls and grid elements it holds references to, the audio context, and the host's
  timer table and its \<open>Math.pow\<close>, and the notifications on display.

  \<^item> \<open>gridInner\<close> and \<open>ruler\<close> are the children of the two grid elements in document
    order; of each child only the presence of the CSS class \<open>playing-col\<close> is kept.
  \<^item> \<open>tempoInput\<close> is \<open>parseInt(tempoInput.value)\<close>, \<open>None\<close> for \<open>NaN\<close>.
  \<^item> \<open>timers\<close> maps the handle of every pending \<open>setTimeout(callback, delay)\<close> to its
    callback and delay; \<open>nextHandle\<close> is the handle the host hands out next.
  \<^item> \<open>mathPow\<close> is the host's \<open>Math.pow\<close> for base 2.
  \<^item> \<open>activeNotifications\<close> is the set of that name in \<open>utilities.js\<close>, in insertion
    order; \<open>notificationContainer\<close> lists the \<open>data-key\<close> of the children of the
    notification container. A key is kept as the message's fixed text and the value put
    into it; the type is \<open>error\<close> throughout.
  \<^item> \<open>voices\<close> lists the oscillators started so far (the gain envelope that shapes each
    one is not modelled); \<open>events\<close> lists the console messages and the calls of
    \<open>showNotification\<close>.
\<close>

record voice =
  frequency :: rat
  startTime :: rat
  waveType :: string

datatype event =
    LogError string error          \<comment> \<open>\<open>console.error(label, error)\<close>\<close>
  | LogWarn int nat                \<comment> \<open>\<open>console.warn(`Column index ${col} exceeds grid width ${cellsPerRow}`)\<close>\<close>
  | ShowNotification string jsval  \<comment> \<open>\<open>showNotification(`${label}${value}`, "error")\<close>\<close>

type_synonym notificationKey = "string \<times> jsval"

datatype callback =
    PlaybackStep                        \<comment> \<open>\<open>setTimeout(playbackStep, ...)\<close>\<close>
  | RemoveNotification notificationKey  \<comment> \<open>\<open>setTimeout(removeNotification, duration)\<close>\<close>

record world =
  isPlaying :: bool
  currentColumn :: int
  timerId :: "nat option"
  cols :: int
  "notes" :: "string list"
  gridState :: "bool list list"
  gridInner :: "bool list"
  ruler :: "bool list"
  tempoInput :: "int option"
  waveSelect :: string
  playButtonText :: string
  audioContext :: bool
  suspended :: bool
  currentTime :: rat
  voices :: "voice list"
  timers :: "nat \<rightharpoonup> callback \<times> rat"
  nextHandle :: nat
  mathPow :: "rat \<Rightarrow> rat"
  activeNotifications :: "notificationKey list"
  notificationContainer :: "notificationKey list"
  events :: "event list"

text \<open>A function either returns or throws; both leave a state behind.\<close>

datatype 'w outcome = Returned 'w | Thrown error 'w

fun worldOf :: "'w outcome \<Rightarrow> 'w" where
  "worldOf (Returned w) = w"
| "worldOf (Thrown e w) = w"

text \<open>
  The remainder operator \<open>%\<close> truncates towards zero: the result has the sign of the
  dividend. (For a zero divisor JavaScript yields \<open>NaN\<close>; the column count is never zero.)
\<close>

definition jsRem :: "int \<Rightarrow> int \<Rightarrow> int" where
  "jsRem a b = sgn a * (\<bar>a\<bar> mod \<bar>b\<bar>)"

definition setTimeout :: "callback \<Rightarrow> rat \<Rightarrow> 'a world_scheme \<Rightarrow> nat \<times> 'a world_scheme" where
  "setTimeout callback delay w =
     (nextHandle w,
      w\<lparr>timers := (timers w)(nextHandle w \<mapsto> (callback, delay)),
        nextHandle := Suc (nextHandle w)\<rparr>)"

definition clearTimeout :: "nat option \<Rightarrow> 'a world_scheme \<Rightarrow> 'a world_scheme" where
  "clearTimeout h w = (case h of None \<Rightarrow> w | Some k \<Rightarrow> w\<lparr>timers := (timers w)(k := None)\<rparr>)"

text \<open>\<open>classList.toggle("playing-col", on)\<close> on the child at an index, if there is one.\<close>

definition toggleCell :: "nat \<Rightarrow> bool \<Rightarrow> bool list \<Rightarrow> bool list" where
  "toggleCell i on cells = (if i < length cells then cells[i := on] else cells)"


text \<open>
  \<open>showNotification(message, "error")\<close> of \<open>utilities.js\<close>. A message that is still
  active is not shown again. Otherwise its key is added to the active set, the oldest
  children of the container are removed (and their keys deleted from the active set) until
  fewer than three are left, the new notification is appended, and its removal is armed
  with \<open>setTimeout(removeNotification, 3000)\<close>. The removal callback itself runs in none
  of the operations below.
\<close>

fun evictOldest :: "notificationKey list \<Rightarrow> notificationKey list
    \<Rightarrow> notificationKey list \<times> notificationKey list" where
  "evictOldest active [] = (active, [])"
| "evictOldest active (oldest # rest) =
     (if 3 \<le> length (oldest # rest) then evictOldest (removeAll oldest active) rest
      else (active, oldest # rest))"

definition showNotification :: "string \<Rightarrow> jsval \<Rightarrow> 'a world_scheme \<Rightarrow> 'a world_scheme" where
  "showNotification label v w0 =
     (let w = w0\<lparr>events := events w0 @ [ShowNotification label v]\<rparr>;
          notificationKey = (label, v)
      in if notificationKey \<in> set (activeNotifications w) then w
         else
           let (active, container) =
                 evictOldest (activeNotifications w @ [notificationKey]) (notificationContainer w);
               w1 = w\<lparr>activeNotifications := active,
                      notificationContainer := container @ [notificationKey]\<rparr>
           in snd (setTimeout (RemoveNotification notificationKey) 3000 w1))"

text \<open>
  \<open>notificationsArmed w w'\<close>: from \<open>w\<close> to \<open>w'\<close> the host has handed out handles only
  for the removal of notifications; every other entry of the timer table is as it was.
\<close>

definition notificationsArmed :: "'a world_scheme \<Rightarrow> 'a world_scheme \<Rightarrow> bool" where
  "notificationsArmed w w' =
     (nextHandle w \<le> nextHandle w'
      \<and> (\<forall>k. timers w' k = timers w k
             \<or> (\<exists>key. timers w' k = Some (RemoveNotification key, 3000))))"


section \<open>audio.js\<close>

definition ensureAudioContext :: "world \<Rightarrow> world" where
  "ensureAudioContext w = w\<lparr>audioContext := True, suspended := False\<rparr>"

text \<open>
  \<open>playNote\<close> runs inside one \<open>try\<close>; whatever is thrown there ends in the \<open>catch\<close>
  block, which logs and calls \<open>showNotification\<close> (which has a \<open>try\<close> of its own). A
  \<open>NaN\<close> frequency makes \<open>frequency.setValueAtTime\<close> throw a \<open>TypeError\<close>.
\<close>

definition playNote :: "jsval \<Rightarrow> rat \<Rightarrow> string \<Rightarrow> world \<Rightarrow> world" where
  "playNote noteName start wave w =
     (case (if \<not> audioContext w then Inl AudioContextError
            else (case noteToFrequency (mathPow w) noteName of
                    Inl e \<Rightarrow> Inl e
                  | Inr NaN \<Rightarrow> Inl TypeError
                  | Inr (Num f) \<Rightarrow> Inr f)) of
        Inr f \<Rightarrow>
          w\<lparr>voices := voices w @ [\<lparr>frequency = f, startTime = start, waveType = wave\<rparr>]\<rparr>
      | Inl e \<Rightarrow>
          showNotification ''Failed to play note '' noteName
            (w\<lparr>events := events w @ [LogError ''Failed to play note:'' e]\<rparr>))"

definition highlightColumn :: "int \<Rightarrow> bool \<Rightarrow> world \<Rightarrow> world" where
  "highlightColumn col highlight w =
     (if col < 0
      then w\<lparr>events := events w @ [LogError ''Failed to highlight column:'' ColumnIndexError]\<rparr>
      else
        let cellsPerRow = length (ruler w)
        in if cellsPerRow \<le> nat col
           then w\<lparr>events := events w @ [LogWarn col cellsPerRow]\<rparr>
           else
             let totalRows = length (gridInner w) div cellsPerRow
             in w\<lparr>gridInner :=
                     fold (\<lambda>row. toggleCell (row * cellsPerRow + nat col) highlight)
                       [0..<totalRows] (gridInner w),
                   ruler := toggleCell (nat col) highlight (ruler w)\<rparr>)"


section \<open>The playback controller\<close>

definition getColumnDurationMs :: "world \<Rightarrow> error + rat" where
  "getColumnDurationMs w = calculateNoteDuration (tempoInput w) 4"

text \<open>
  \<open>gridState[row][col]\<close>: reading a missing row throws a \<open>TypeError\<close>, reading a missing
  column of a row yields \<open>undefined\<close>, which is falsy.
\<close>

definition cellActive :: "bool list \<Rightarrow> int \<Rightarrow> bool" where
  "cellActive r c = (0 \<le> c \<and> nat c < length r \<and> r ! nat c)"

fun playActiveNotes :: "nat list \<Rightarrow> rat \<Rightarrow> string \<Rightarrow> world \<Rightarrow> world outcome" where
  "playActiveNotes [] now waveForm w = Returned w"
| "playActiveNotes (row # rows) now waveForm w =
     (if length (gridState w) \<le> row then Thrown TypeError w
      else if cellActive (gridState w ! row) (currentColumn w)
      then playActiveNotes rows now waveForm (playNote (JStr (notes w ! row)) now waveForm w)
      else playActiveNotes rows now waveForm w)"

definition playbackStep :: "world \<Rightarrow> world outcome" where
  "playbackStep w =
     (if \<not> isPlaying w then Returned w
      else
        let w1 = ensureAudioContext w;
            now = currentTime w1;
            waveForm = waveSelect w1
        in case playActiveNotes [0..<length (notes w1)] now waveForm w1 of
             Thrown e w2 \<Rightarrow> Thrown e w2
           | Returned w2 \<Rightarrow>
               let prevColumn = jsRem (currentColumn w2 - 1 + cols w2) (cols w2);
                   w3 = highlightColumn prevColumn False w2;
                   w4 = highlightColumn (currentColumn w3) True w3;
                   w5 = w4\<lparr>currentColumn := jsRem (currentColumn w4 + 1) (cols w4)\<rparr>
               in (case getColumnDurationMs w5 of
                     Inl e \<Rightarrow> Thrown e w5
                   | Inr delay \<Rightarrow>
                       let (h, w6) = setTimeout PlaybackStep delay w5
                       in Returned (w6\<lparr>timerId := Some h\<rparr>)))"

definition startPlayback :: "world \<Rightarrow> world outcome" where
  "startPlayback w =
     (if isPlaying w then Returned w
      else playbackStep
             ((ensureAudioContext (w\<lparr>isPlaying := True\<rparr>))
                \<lparr>playButtonText := ''Stop'', currentColumn := 0\<rparr>))"

definition stopPlayback :: "world \<Rightarrow> world" where
  "stopPlayback w =
     (if \<not> isPlaying w then w
      else
        let w1 = clearTimeout (timerId w) (w\<lparr>isPlaying := False\<rparr>);
            w2 = w1\<lparr>playButtonText := ''Play''\<rparr>
        in fold (\<lambda>c. highlightColumn (int c) False) [0..<nat (cols w2)] w2)"


text \<open>
  Consecutive executions of the step callback, and the columns they play: each step plays
  and highlights the column that \<open>currentColumn\<close> names when it starts.
\<close>

fun steps :: "nat \<Rightarrow> world \<Rightarrow> world" where
  "steps 0 w = w"
| "steps (Suc n) w = steps n (worldOf (playbackStep w))"

fun visited :: "nat \<Rightarrow> world \<Rightarrow> int list" where
  "visited 0 w = []"
| "visited (Suc n) w = currentColumn w # visited n (worldOf (playbackStep w))"

text \<open>The three operations on a session, and a run of them. An exception thrown by a
  callback is reported by the host and the page carries on with the state left behind.\<close>

datatype operation = Start | Step | Stop

fun perform :: "operation \<Rightarrow> world \<Rightarrow> world" where
  "perform Start w = worldOf (startPlayback w)"
| "perform Step w = worldOf (playbackStep w)"
| "perform Stop w = stopPlayback w"

definition run :: "operation list \<Rightarrow> world \<Rightarrow> world" where
  "run ops w = fold perform ops w"

text \<open>
  What the step needs to run to its end: a positive column count, the cursor inside it, a
  grid row for every note, and a tempo that \<open>calculateNoteDuration\<close> accepts. The
  controller keeps the column count between 4 and 32 and the grid rectangular; the tempo
  slider ranges over 60 to 240.
\<close>

definition wellFormed :: "world \<Rightarrow> bool" where
  "wellFormed w =
     (0 < cols w \<and> 0 \<le> currentColumn w \<and> currentColumn w < cols w
      \<and> length (notes w) \<le> length (gridState w)
      \<and> isNumberInRange (tempoInput w) 1 1000)"


section \<open>Highlighted columns\<close>

text \<open>
  The grid cells are laid out row by row, \<open>length (ruler w)\<close> cells to a row, so the cell
  at index \<open>i\<close> belongs to column \<open>i mod length (ruler w)\<close>. A column carries the highlight
  if its ruler cell or one of its grid cells has the class.
\<close>

definition columnPlaying :: "world \<Rightarrow> nat \<Rightarrow> bool" where
  "columnPlaying w c =
     (ruler w ! c \<or>
      list_ex (\<lambda>i. gridInner w ! i \<and> i mod length (ruler w) = c) [0..<length (gridInner w)])"

definition playingColumns :: "world \<Rightarrow> nat list" where
  "playingColumns w = filter (columnPlaying w) [0..<length (ruler w)]"

definition noHighlight :: "world \<Rightarrow> bool" where
  "noHighlight w = (\<not> list_ex id (gridInner w) \<and> \<not> list_ex id (ruler w))"

text \<open>
  \<open>confined w p\<close>: every highlighted cell lies in column \<open>p\<close>, within the complete
  rows of the grid. \<open>highlightInv\<close> is what the three operations maintain: a stopped
  session has no highlight, a playing one has the cursor inside the grid and no highlight
  outside the column before the cursor.
\<close>

definition confined :: "world \<Rightarrow> nat \<Rightarrow> bool" where
  "confined w p =
     ((\<forall>j < length (ruler w). ruler w ! j \<longrightarrow> j = p)
      \<and> (\<forall>j < length (gridInner w). gridInner w ! j \<longrightarrow>
            j mod length (ruler w) = p
            \<and> j div length (ruler w) < length (gridInner w) div length (ruler w)))"

definition highlightInv :: "world \<Rightarrow> bool" where
  "highlightInv w =
     (0 < cols w \<and>
      (if isPlaying w
       then 0 \<le> currentColumn w \<and> currentColumn w < cols w
            \<and> confined w (nat (jsRem (currentColumn w - 1 + cols w) (cols w)))
       else noHighlight w))"

text \<open>No operation changes the shape of the grid.\<close>

definition sameShape :: "world \<Rightarrow> world \<Rightarrow> bool" where
  "sameShape w w' =
     (cols w' = cols w \<and> notes w' = notes w \<and> gridState w' = gridState w
      \<and> length (ruler w') = length (ruler w) \<and> length (gridInner w') = length (gridInner w))"

text \<open>The document as \<open>renderGrid\<close> builds it: one ruler cell per column, one grid cell
  per note and column.\<close>

definition rendered :: "world \<Rightarrow> bool" where
  "rendered w =
     (int (length (ruler w)) = cols w
      \<and> length (gridInner w) = length (notes w) * length (ruler w))"


section \<open>Notes of a step\<close>

text \<open>
  The voices a step is expected to start: one for every row whose cell in the current
  column is active and whose note name resolves to a frequency, in row order, all at the
  same instant.
\<close>

definition voiceOf :: "(rat \<Rightarrow> rat) \<Rightarrow> string \<Rightarrow> rat \<Rightarrow> string \<Rightarrow> voice list" where
  "voiceOf host noteName now wave =
     (case noteToFrequency host (JStr noteName) of
        Inr (Num f) \<Rightarrow> [\<lparr>frequency = f, startTime = now, waveType = wave\<rparr>]
      | _ \<Rightarrow> [])"

definition expectedVoices :: "world \<Rightarrow> nat list \<Rightarrow> rat \<Rightarrow> string \<Rightarrow> voice list" where
  "expectedVoices w rows now wave =
     concat (map (\<lambda>row. if cellActive (gridState w ! row) (currentColumn w)
                         then voiceOf (mathPow w) (notes w ! row) now wave else []) rows)"

text \<open>The twelve pitch classes in the order of the chromatic scale, and the octave digits.\<close>

definition pitchClasses :: "string list" where
  "pitchClasses = [''C'', ''C#'', ''D'', ''D#'', ''E'', ''F'', ''F#'', ''G'', ''G#'', ''A'', ''A#'', ''B'']"

definition octaveDigit :: "nat \<Rightarrow> char" where
  "octaveDigit k = ''012345678'' ! k"

text \<open>
  A valid note name in the words of the specification: a pitch class followed by one octave
  digit from 0 to 8.
\<close>

definition specValidNote :: "jsval \<Rightarrow> bool" where
  "specValidNote v =
     (case v of
        JStr s \<Rightarrow> s \<noteq> [] \<and> butlast s \<in> set pitchClasses \<and> last s \<in> set ''012345678''
      | _ \<Rightarrow> False)"

text \<open>
  The semitone offset of a note name from A4 in the words of the specification: twelve
  semitones for every octave above the fourth, plus the position of the pitch class in the
  chromatic scale (C at 0), minus the 9 of A.
\<close>

definition indexOf :: "'a \<Rightarrow> 'a list \<Rightarrow> nat" where
  "indexOf x xs = length (takeWhile (\<lambda>y. y \<noteq> x) xs)"

definition semitoneOffset :: "string \<Rightarrow> int" where
  "semitoneOffset noteName =
     (int (indexOf (last noteName) ''012345678'') - 4) * 12
       + int (indexOf (butlast noteName) pitchClasses) - 9"


section \<open>The single-file script\<close>

text \<open>
  The repository also holds the earlier single-file version of the sequencer, which owns
  the only \<open>change\<close> listener on the tempo input. Its state is the same record, with the
  constant \<open>ROWS\<close> added; \<open>cols\<close> stands for its constant \<open>COLS\<close>. The functions that share
  a name with the controller's carry the suffix \<open>_script\<close>.
\<close>

record script = world +
  ROWS :: int

text \<open>\<open>parseInt(tempoInput?.value) || 120\<close>, then \<open>60_000 / bpm / 4\<close>.\<close>

definition getColumnDurationMs_script :: "script \<Rightarrow> rat" where
  "getColumnDurationMs_script w =
     (let bpm = (case tempoInput w of None \<Rightarrow> 120 | Some b \<Rightarrow> if b = 0 then 120 else b)
      in fl (fl (60000 / of_int bpm) / 4))"

definition getFrequencyForRow :: "(rat \<Rightarrow> rat) \<Rightarrow> nat \<Rightarrow> rat" where
  "getFrequencyForRow host row =
     (let semitoneSteps = [12, 11, 9, 7, 5, 4, 2, 0 :: int];
          step = (if row < length semitoneSteps then semitoneSteps ! row else 0);
          baseFrequency = fl (6541 / 100)
      in fl (baseFrequency * Math_pow host (fl (of_int step / 12))))"

definition playNoteAt :: "nat \<Rightarrow> rat \<Rightarrow> script \<Rightarrow> script" where
  "playNoteAt row time w =
     w\<lparr>voices := voices w @
          [\<lparr>frequency = getFrequencyForRow (mathPow w) row, startTime = time,
            waveType = (if waveSelect w = [] then ''sine'' else waveSelect w)\<rparr>]\<rparr>"

text \<open>\<open>children[index]\<close> is \<open>undefined\<close> for a negative index as for one past the end.\<close>

definition toggleCellAt :: "int \<Rightarrow> bool \<Rightarrow> bool list \<Rightarrow> bool list" where
  "toggleCellAt i on cells = (if 0 \<le> i \<and> nat i < length cells then cells[nat i := on] else cells)"

definition highlightColumn_script :: "int \<Rightarrow> bool \<Rightarrow> script \<Rightarrow> script" where
  "highlightColumn_script col on w =
     w\<lparr>gridInner := fold (\<lambda>r. toggleCellAt (int r * cols w + col) on) [0..<nat (ROWS w)] (gridInner w),
       ruler := toggleCellAt col on (ruler w)\<rparr>"

fun playActiveRows_script :: "nat list \<Rightarrow> rat \<Rightarrow> script \<Rightarrow> script outcome" where
  "playActiveRows_script [] now w = Returned w"
| "playActiveRows_script (r # rs) now w =
     (if length (gridState w) \<le> r then Thrown TypeError w
      else if cellActive (gridState w ! r) (currentColumn w)
      then playActiveRows_script rs now (playNoteAt r now w)
      else playActiveRows_script rs now w)"

definition playbackStep_script :: "script \<Rightarrow> script outcome" where
  "playbackStep_script w =
     (if \<not> isPlaying w \<or> \<not> audioContext w then Returned w
      else
        let now = currentTime w
        in case playActiveRows_script [0..<nat (ROWS w)] now w of
             Thrown e w2 \<Rightarrow> Thrown e w2
           | Returned w2 \<Rightarrow>
               let w3 = highlightColumn_script (currentColumn w2) True w2;
                   prevColumn = jsRem (currentColumn w3 - 1 + cols w3) (cols w3);
                   w4 = highlightColumn_script prevColumn False w3;
                   w5 = w4\<lparr>currentColumn := jsRem (currentColumn w4 + 1) (cols w4)\<rparr>;
                   (h, w6) = setTimeout PlaybackStep (getColumnDurationMs_script w5) w5
               in Returned (w6\<lparr>timerId := Some h\<rparr>))"

text \<open>
  The listener \<open>tempoInput.addEventListener("change", ...)\<close>; the event arrives when the
  input already holds its new value.
\<close>

definition tempoChange :: "script \<Rightarrow> script outcome" where
  "tempoChange w =
     (if isPlaying w then playbackStep_script (clearTimeout (timerId w) w) else Returned w)"

definition tempoChanged :: "int option \<Rightarrow> script \<Rightarrow> script outcome" where
  "tempoChanged v w = tempoChange (w\<lparr>tempoInput := v\<rparr>)"

definition expectedVoices_script :: "script \<Rightarrow> voice list" where
  "expectedVoices_script w =
     map (\<lambda>r. \<lparr>frequency = getFrequencyForRow (mathPow w) r, startTime = currentTime w,
               waveType = (if waveSelect w = [] then ''sine'' else waveSelect w)\<rparr>)
       (filter (\<lambda>r. cellActive (gridState w ! r) (currentColumn w)) [0..<nat (ROWS w)])"


section \<open>Sample sessions\<close>

text \<open>
  A host whose \<open>Math.pow\<close> is exact on whole exponents and returns the doubles
  \<open>1.0594630943592953\<close> and \<open>0.5946035575013605\<close> for the exponents
  \<open>0.08333333333333333\<close> and \<open>-0.75\<close>, as the usual implementations do; elsewhere it
  interpolates between the neighbouring powers.
\<close>

definition sampleHost :: "rat \<Rightarrow> rat" where
  "sampleHost x =
     (if x = of_int \<lfloor>x\<rfloor> then pow2 \<lfloor>x\<rfloor>
      else if x = 6004799503160661 / 72057594037927936
      then 4771397596969315 / 4503599627370496
      else if x = - 3 / 4 then 5355712719992597 / 9007199254740992
      else fl (pow2 \<lfloor>x\<rfloor> * (1 + (x - of_int \<lfloor>x\<rfloor>))))"

text \<open>
  A stopped session of the controller with two notes and sixteen columns at 120 beats per
  minute, the same session once started, a playing session whose first row carries a name
  that is not a note, and a session of the single-file script that has played columns 0
  to 2.
\<close>

definition sampleWorld :: world where
  "sampleWorld =
     \<lparr>isPlaying = False, currentColumn = 0, timerId = None, cols = 16,
      notes = [''A4'', ''C4''],
      gridState = [True # False # True # replicate 13 False,
                   False # True # replicate 14 False],
      gridInner = replicate 32 False, ruler = replicate 16 False,
      tempoInput = Some 120, waveSelect = ''sine'', playButtonText = ''Play'',
      audioContext = False, suspended = True, currentTime = 0, voices = [],
      timers = Map.empty, nextHandle = 0, mathPow = sampleHost,
      activeNotifications = [], notificationContainer = [], events = []\<rparr>"

definition samplePlaying :: world where
  "samplePlaying = worldOf (startPlayback sampleWorld)"

definition sampleInvalid :: world where
  "sampleInvalid =
     sampleWorld\<lparr>isPlaying := True, audioContext := True, suspended := False,
       notes := [''H4'', ''A4''],
       gridState := [True # replicate 15 False, True # replicate 15 False]\<rparr>"

definition sampleScript :: script where
  "sampleScript =
     \<lparr>isPlaying = True, currentColumn = 3, timerId = Some 2, cols = 16,
      notes = [''C3'', ''B2'', ''A2'', ''G2'', ''F2'', ''E2'', ''D2'', ''C2''],
      gridState = replicate 8 (replicate 16 False),
      gridInner = concat (replicate 8 ((replicate 16 False)[2 := True])),
      ruler = (replicate 16 False)[2 := True],
      tempoInput = Some 120, waveSelect = ''sine'', playButtonText = ''Stop'',
      audioContext = True, suspended = False, currentTime = 3 / 8, voices = [],
      timers = [2 \<mapsto> (PlaybackStep, 125)], nextHandle = 3, mathPow = sampleHost,
      activeNotifications = [], notificationContainer = [], events = [],
      ROWS = 8\<rparr>"


section \<open>Rounding\<close>

lemma pow2_powi: "pow2 e = 2 powi e"
  by (simp add: pow2_def power_int_def inverse_eq_divide power_one_over)

lemma pow2_pos: "0 < pow2 e"
  by (simp add: pow2_powi)

lemma pow2_add: "pow2 (a + b) = pow2 a * pow2 b"
  by (simp add: pow2_powi power_int_add)

lemma pow2_nat: "0 \<le> e \<Longrightarrow> pow2 e = 2 ^ nat e"
  by (simp add: pow2_def)

lemma pow2_diff: "pow2 (a - b) = pow2 a / pow2 b"
  by (simp add: pow2_powi power_int_diff)

lemma bitlen_pow2_bounds:
  assumes n: "0 < n"
  shows "pow2 (bitlen n - 1) \<le> of_int n" and "of_int n < pow2 (bitlen n)"
proof -
  have "1 \<le> bitlen n" using n by (simp add: bitlen_alt_def)
  then have e: "pow2 (bitlen n - 1) = of_int (2 ^ nat (bitlen n - 1))"
    "pow2 (bitlen n) = of_int (2 ^ nat (bitlen n))"
    by (simp_all add: pow2_nat)
  show "pow2 (bitlen n - 1) \<le> of_int n"
    unfolding e using bitlen_bounds[OF n] by (subst of_int_le_iff) simp
  show "of_int n < pow2 (bitlen n)"
    unfolding e using bitlen_bounds[OF n] by (subst of_int_less_iff) simp
qed

text \<open>\<open>binexp\<close> is the binary exponent: \<open>2 ^ binexp q \<le> q < 2 ^ (binexp q + 1)\<close>.\<close>

lemma binexp_bounds:
  assumes "0 < q"
  shows "pow2 (binexp q) \<le> q \<and> q < pow2 (binexp q + 1)"
proof -
  obtain n d where nd: "quotient_of q = (n, d)" by (cases "quotient_of q")
  have d: "0 < d" using nd quotient_of_denom_pos by blast
  have q: "q = of_int n / of_int d" using nd quotient_of_div by blast
  have n: "0 < n" using assms d q by (simp add: zero_less_divide_iff)
  define k where "k = bitlen n - bitlen d"
  note bn = bitlen_pow2_bounds[OF n] and bd = bitlen_pow2_bounds[OF d]
  have dpos: "(0::rat) < of_int d" using d by simp
  have lo: "pow2 (k - 1) \<le> q"
  proof -
    have "pow2 (k - 1) * of_int d \<le> pow2 (k - 1) * pow2 (bitlen d)"
      using bd(2) pow2_pos[of "k - 1"] by (simp add: less_imp_le)
    also have "\<dots> = pow2 (bitlen n - 1)" by (simp add: k_def pow2_add[symmetric])
    also have "\<dots> \<le> of_int n" by (rule bn(1))
    finally show ?thesis using dpos by (simp add: q pos_le_divide_eq)
  qed
  have hi: "q < pow2 (k + 1)"
  proof -
    have "of_int n < pow2 (bitlen n)" by (rule bn(2))
    also have "\<dots> = pow2 (k + 1) * pow2 (bitlen d - 1)" by (simp add: k_def pow2_add[symmetric])
    also have "\<dots> \<le> pow2 (k + 1) * of_int d"
      using bd(1) pow2_pos[of "k + 1"] by simp
    finally show ?thesis using dpos by (simp add: q pos_divide_less_eq)
  qed
  have be: "binexp q = (if pow2 k \<le> q then k else k - 1)"
    by (simp add: binexp_def nd k_def)
  show ?thesis
  proof (cases "pow2 k \<le> q")
    case True then show ?thesis using hi by (simp add: be)
  next
    case False then show ?thesis using lo by (simp add: be)
  qed
qed

lemma roundTiesToEven_error: "\<bar>of_int (roundTiesToEven m) - m\<bar> \<le> 1 / 2"
proof -
  have "of_int \<lfloor>m\<rfloor> \<le> m" "m < of_int \<lfloor>m\<rfloor> + 1" by linarith+
  then show ?thesis
    by (auto simp add: roundTiesToEven_def Let_def)
qed

text \<open>Rounding moves a positive number by at most half a unit in the last place.\<close>

lemma fl_error:
  assumes "0 < q"
  shows "\<bar>fl q - q\<bar> \<le> q / 2 ^ 53"
proof -
  define u where "u = pow2 (binexp q - 52)"
  have u: "0 < u" by (simp add: u_def pow2_pos)
  have flq: "fl q = of_int (roundTiesToEven (q / u)) * u"
    using assms by (simp add: fl_def u_def Let_def)
  have "fl q - q = (of_int (roundTiesToEven (q / u)) - q / u) * u"
    using u by (simp add: flq left_diff_distrib)
  then have "\<bar>fl q - q\<bar> = \<bar>of_int (roundTiesToEven (q / u)) - q / u\<bar> * u"
    using u by (simp add: abs_mult)
  also have "\<dots> \<le> (1 / 2) * u"
    using roundTiesToEven_error[of "q / u"] u by (intro mult_right_mono) simp_all
  also have "\<dots> = pow2 (binexp q) / 2 ^ 53"
    by (simp add: u_def pow2_diff pow2_nat)
  also have "\<dots> \<le> q / 2 ^ 53"
    using binexp_bounds[OF assms] by (simp add: divide_right_mono)
  finally show ?thesis .
qed

lemma fl_pos:
  assumes "0 < q" shows "0 < fl q"
proof -
  have "\<bar>fl q - q\<bar> \<le> q / 2 ^ 53" by (rule fl_error[OF assms])
  moreover have "q / 2 ^ 53 < q" using assms by (simp add: divide_less_eq)
  ultimately show ?thesis by linarith
qed

lemma rel_error_bounds:
  fixes r y u :: rat
  assumes "\<bar>r - y\<bar> \<le> y * u"
  shows "r \<le> y * (1 + u)" and "y * (1 - u) \<le> r"
  using assms by (simp_all add: abs_le_iff algebra_simps)

text \<open>Three roundings in a row stay within four half-units of the exact value.\<close>

lemma three_roundings:
  assumes x: "0 < x"
  shows "\<bar>fl (fl (fl x * 1000) / 4) - x * 250\<bar> \<le> x * 250 / 2 ^ 51"
proof -
  define u :: rat where "u = 1 / 2 ^ 53"
  have u: "0 < u" "u < 1" by (simp_all add: u_def)
  define a where "a = fl x"
  define p where "p = fl (a * 1000)"
  define r where "r = fl (p / 4)"
  have a0: "0 < a" unfolding a_def by (rule fl_pos[OF x])
  have p0: "0 < p" unfolding p_def using a0 by (intro fl_pos) simp
  have ea: "\<bar>a - x\<bar> \<le> x * u" unfolding a_def u_def using fl_error[OF x] by simp
  have ep: "\<bar>p - a * 1000\<bar> \<le> a * 1000 * u"
    unfolding p_def u_def using fl_error[of "a * 1000"] a0 by simp
  have er: "\<bar>r - p / 4\<bar> \<le> p / 4 * u"
    unfolding r_def u_def using fl_error[of "p / 4"] p0 by simp
  note a_hi = rel_error_bounds(1)[OF ea] and a_lo = rel_error_bounds(2)[OF ea]
  note p_hi = rel_error_bounds(1)[OF ep] and p_lo = rel_error_bounds(2)[OF ep]
  note r_hi = rel_error_bounds(1)[OF er] and r_lo = rel_error_bounds(2)[OF er]
  define k where "k = 1 + u"
  define l where "l = 1 - u"
  have k: "0 \<le> k" and l: "0 \<le> l" using u by (simp_all add: k_def l_def)
  have hi: "r \<le> x * 250 * (k * k * k)"
  proof -
    have "a * (1000 * k) \<le> (x * k) * (1000 * k)"
      using a_hi k unfolding k_def[symmetric] by (intro mult_right_mono) simp_all
    moreover have "p \<le> a * (1000 * k)"
      using p_hi by (simp only: k_def mult.assoc)
    ultimately have "p \<le> (x * k) * (1000 * k)" by (rule order_trans[rotated])
    then have "p * (k / 4) \<le> ((x * k) * (1000 * k)) * (k / 4)"
      using k by (intro mult_right_mono) simp_all
    moreover have "r \<le> p * (k / 4)"
      using r_hi by (simp only: k_def times_divide_eq_left times_divide_eq_right)
    moreover have "((x * k) * (1000 * k)) * (k / 4) = x * 250 * (k * k * k)" by simp
    ultimately show ?thesis by linarith
  qed
  have lo: "x * 250 * (l * l * l) \<le> r"
  proof -
    have "(x * l) * (1000 * l) \<le> a * (1000 * l)"
      using a_lo l unfolding l_def[symmetric] by (intro mult_right_mono) simp_all
    moreover have "a * (1000 * l) \<le> p"
      using p_lo by (simp only: l_def mult.assoc)
    ultimately have "(x * l) * (1000 * l) \<le> p" by (rule order_trans)
    then have "((x * l) * (1000 * l)) * (l / 4) \<le> p * (l / 4)"
      using l by (intro mult_right_mono) simp_all
    moreover have "p * (l / 4) \<le> r"
      using r_lo by (simp only: l_def times_divide_eq_left times_divide_eq_right)
    moreover have "((x * l) * (1000 * l)) * (l / 4) = x * 250 * (l * l * l)" by simp
    ultimately show ?thesis by linarith
  qed
  have c_hi: "k * k * k \<le> 1 + 4 * u" by (simp add: k_def u_def)
  have c_lo: "1 - 4 * u \<le> l * l * l" by (simp add: l_def u_def)
  have x250: "0 \<le> x * 250" using x by simp
  have "r \<le> x * 250 * (1 + 4 * u)"
    using hi mult_left_mono[OF c_hi x250] by linarith
  then have 1: "r - x * 250 \<le> x * 250 * (4 * u)" by (simp add: distrib_left)
  have "x * 250 * (1 - 4 * u) \<le> r"
    using lo mult_left_mono[OF c_lo x250] by linarith
  then have 2: "x * 250 - r \<le> x * 250 * (4 * u)" by (simp add: right_diff_distrib)
  have 3: "x * 250 / 2 ^ 51 = x * 250 * (4 * u)" by (simp add: u_def)
  have "\<bar>r - x * 250\<bar> \<le> x * 250 / 2 ^ 51"
    unfolding 3 using 1 2 by (simp add: abs_le_iff)
  then show ?thesis
    unfolding r_def p_def a_def .
qed

lemma duration_120: "calculateNoteDuration (Some 120) 4 = Inr 125"
  by code_simp

lemma duration_60: "calculateNoteDuration (Some 60) 4 = Inr 250"
  by code_simp

lemma duration_11:
  "calculateNoteDuration (Some 11) 4 = Inr (2998668075752727 / 2199023255552)"
  by code_simp

lemma specColumnDurationDouble_11:
  "specColumnDurationDouble 11 = 5997336151505455 / 4398046511104"
  by code_simp

lemma fl_minus: "fl (- q) = - fl q"
  by (simp add: fl_def Let_def)

lemma fl_error_abs: "\<bar>fl q - q\<bar> \<le> \<bar>q\<bar> / 2 ^ 53"
proof -
  consider "q = 0" | "0 < q" | "q < 0" by linarith
  then show ?thesis
  proof cases
    case 1
    then show ?thesis by (simp add: fl_def)
  next
    case 2
    with fl_error[OF 2] show ?thesis by simp
  next
    case 3
    then have "0 < - q" by simp
    from fl_error[OF this] have "\<bar>- fl q + q\<bar> \<le> - q / 2 ^ 53"
      by (simp add: fl_minus)
    moreover have "\<bar>- fl q + q\<bar> = \<bar>fl q - q\<bar>" by linarith
    ultimately show ?thesis using 3 by simp
  qed
qed

lemma of_rat_abs_real: "(of_rat \<bar>x\<bar> :: real) = \<bar>of_rat x\<bar>"
  by (simp add: abs_if of_rat_minus)

lemma fl_error_real:
  "\<bar>(of_rat (fl q) :: real) - of_rat q\<bar> \<le> \<bar>of_rat q\<bar> / 2 ^ 53"
proof -
  have "(of_rat \<bar>fl q - q\<bar> :: real) \<le> of_rat (\<bar>q\<bar> / 2 ^ 53)"
    using fl_error_abs[of q] by (simp only: of_rat_less_eq)
  then show ?thesis
    by (simp only: of_rat_divide of_rat_power of_rat_diff of_rat_abs_real of_rat_numeral_eq)
qed

lemma powr_near_one:
  fixes u :: real
  assumes "\<bar>u\<bar> \<le> 1 / 2"
  shows "\<bar>2 powr u - 1\<bar> \<le> 2 * \<bar>u\<bar>"
proof -
  define v where "v = u * ln 2"
  have l: "0 < ln (2::real)" "ln (2::real) \<le> 1"
    using ln_le_minus_one[of "2::real"] by simp_all
  have "\<bar>v\<bar> = \<bar>u\<bar> * ln 2" using l by (simp add: v_def abs_mult)
  also have "\<dots> \<le> \<bar>u\<bar> * 1" using l by (intro mult_left_mono) simp_all
  finally have v: "\<bar>v\<bar> \<le> \<bar>u\<bar>" by simp
  have e: "2 powr u = exp v" by (simp add: powr_def v_def)
  have "norm v \<le> 1 / 2" using v assms by simp
  from exp_bound_lemma[OF this] have up: "exp v \<le> 1 + 2 * \<bar>v\<bar>" by simp
  have lo: "1 + v \<le> exp v" by (rule exp_ge_add_one_self)
  show ?thesis unfolding e using up lo v by linarith
qed

lemma fl_440: "fl 440 = 440"
  by code_simp

lemma fl_0: "fl 0 = 0"
  by (simp add: fl_def)


section \<open>What each function leaves untouched\<close>

lemma showNotification_fields [simp]:
  "isPlaying (showNotification l v w) = isPlaying w"
  "currentColumn (showNotification l v w) = currentColumn w"
  "timerId (showNotification l v w) = timerId w"
  "cols (showNotification l v w) = cols w"
  "notes (showNotification l v w) = notes w"
  "gridState (showNotification l v w) = gridState w"
  "gridInner (showNotification l v w) = gridInner w"
  "ruler (showNotification l v w) = ruler w"
  "tempoInput (showNotification l v w) = tempoInput w"
  "waveSelect (showNotification l v w) = waveSelect w"
  "playButtonText (showNotification l v w) = playButtonText w"
  "audioContext (showNotification l v w) = audioContext w"
  "suspended (showNotification l v w) = suspended w"
  "currentTime (showNotification l v w) = currentTime w"
  "voices (showNotification l v w) = voices w"
  "mathPow (showNotification l v w) = mathPow w"
  "events (showNotification l v w) = events w @ [ShowNotification l v]"
  by (simp_all add: showNotification_def Let_def setTimeout_def split_beta)

lemma notificationsArmed_refl: "notificationsArmed w w"
  by (simp add: notificationsArmed_def)

lemma notificationsArmed_trans:
  assumes "notificationsArmed a b" "notificationsArmed b c"
  shows "notificationsArmed a c"
  unfolding notificationsArmed_def
proof (intro conjI allI)
  show "nextHandle a \<le> nextHandle c"
    using assms by (simp add: notificationsArmed_def)
next
  fix k
  from assms(2) consider "timers c k = timers b k"
    | key where "timers c k = Some (RemoveNotification key, 3000)"
    unfolding notificationsArmed_def by blast
  then show "timers c k = timers a k \<or> (\<exists>key. timers c k = Some (RemoveNotification key, 3000))"
  proof cases
    case 1
    with assms(1) show ?thesis unfolding notificationsArmed_def by metis
  next
    case 2
    then show ?thesis by blast
  qed
qed

lemma notificationsArmed_cong:
  "timers w' = timers w \<Longrightarrow> nextHandle w' = nextHandle w \<Longrightarrow> notificationsArmed w w'"
  by (simp add: notificationsArmed_def)

lemma showNotification_armed: "notificationsArmed w (showNotification l v w)"
  by (auto simp add: notificationsArmed_def showNotification_def Let_def setTimeout_def
      split_beta)

lemma playNote_armed: "notificationsArmed w (playNote n t wv w)"
proof -
  have "notificationsArmed (w\<lparr>events := events w @ [LogError ''Failed to play note:'' e]\<rparr>)
      (showNotification ''Failed to play note '' n
        (w\<lparr>events := events w @ [LogError ''Failed to play note:'' e]\<rparr>))" for e
    by (rule showNotification_armed)
  then have "notificationsArmed w
      (showNotification ''Failed to play note '' n
        (w\<lparr>events := events w @ [LogError ''Failed to play note:'' e]\<rparr>))" for e
    by (simp add: notificationsArmed_def)
  then show ?thesis
    by (simp add: playNote_def notificationsArmed_refl notificationsArmed_cong
        split: sum.splits jsnum.splits)
qed

lemma playActiveNotes_armed:
  "notificationsArmed w (worldOf (playActiveNotes rows now wv w))"
proof (induction rows arbitrary: w)
  case Nil
  then show ?case by (simp add: notificationsArmed_refl)
next
  case (Cons r rows)
  have "notificationsArmed w (playNote (JStr (notes w ! r)) now wv w)"
    by (rule playNote_armed)
  from notificationsArmed_trans[OF this Cons.IH] Cons.IH[of w]
  show ?case by (simp add: notificationsArmed_refl)
qed

lemma playNote_fields [simp]:
  "isPlaying (playNote n t wv w) = isPlaying w"
  "currentColumn (playNote n t wv w) = currentColumn w"
  "timerId (playNote n t wv w) = timerId w"
  "cols (playNote n t wv w) = cols w"
  "notes (playNote n t wv w) = notes w"
  "gridState (playNote n t wv w) = gridState w"
  "gridInner (playNote n t wv w) = gridInner w"
  "ruler (playNote n t wv w) = ruler w"
  "tempoInput (playNote n t wv w) = tempoInput w"
  "waveSelect (playNote n t wv w) = waveSelect w"
  "playButtonText (playNote n t wv w) = playButtonText w"
  "audioContext (playNote n t wv w) = audioContext w"
  "suspended (playNote n t wv w) = suspended w"
  "currentTime (playNote n t wv w) = currentTime w"
  "mathPow (playNote n t wv w) = mathPow w"
  by (simp_all add: playNote_def split: sum.splits jsnum.splits)

lemma playActiveNotes_fields [simp]:
  "isPlaying (worldOf (playActiveNotes rows now wv w)) = isPlaying w"
  "currentColumn (worldOf (playActiveNotes rows now wv w)) = currentColumn w"
  "timerId (worldOf (playActiveNotes rows now wv w)) = timerId w"
  "cols (worldOf (playActiveNotes rows now wv w)) = cols w"
  "notes (worldOf (playActiveNotes rows now wv w)) = notes w"
  "gridState (worldOf (playActiveNotes rows now wv w)) = gridState w"
  "gridInner (worldOf (playActiveNotes rows now wv w)) = gridInner w"
  "ruler (worldOf (playActiveNotes rows now wv w)) = ruler w"
  "tempoInput (worldOf (playActiveNotes rows now wv w)) = tempoInput w"
  "waveSelect (worldOf (playActiveNotes rows now wv w)) = waveSelect w"
  "playButtonText (worldOf (playActiveNotes rows now wv w)) = playButtonText w"
  "audioContext (worldOf (playActiveNotes rows now wv w)) = audioContext w"
  "suspended (worldOf (playActiveNotes rows now wv w)) = suspended w"
  "currentTime (worldOf (playActiveNotes rows now wv w)) = currentTime w"
  "mathPow (worldOf (playActiveNotes rows now wv w)) = mathPow w"
  by (induction rows arbitrary: w; simp)+

lemma playActiveNotes_returns:
  "\<forall>r \<in> set rows. r < length (gridState w) \<Longrightarrow>
   playActiveNotes rows now wv w = Returned (worldOf (playActiveNotes rows now wv w))"
  by (induction rows arbitrary: w) simp_all

lemma highlightColumn_fields [simp]:
  "isPlaying (highlightColumn c b w) = isPlaying w"
  "currentColumn (highlightColumn c b w) = currentColumn w"
  "timerId (highlightColumn c b w) = timerId w"
  "cols (highlightColumn c b w) = cols w"
  "notes (highlightColumn c b w) = notes w"
  "gridState (highlightColumn c b w) = gridState w"
  "tempoInput (highlightColumn c b w) = tempoInput w"
  "waveSelect (highlightColumn c b w) = waveSelect w"
  "playButtonText (highlightColumn c b w) = playButtonText w"
  "audioContext (highlightColumn c b w) = audioContext w"
  "suspended (highlightColumn c b w) = suspended w"
  "currentTime (highlightColumn c b w) = currentTime w"
  "voices (highlightColumn c b w) = voices w"
  "timers (highlightColumn c b w) = timers w"
  "nextHandle (highlightColumn c b w) = nextHandle w"
  "mathPow (highlightColumn c b w) = mathPow w"
  by (simp_all add: highlightColumn_def Let_def)

lemma clearColumns_fields [simp]:
  "isPlaying (fold (\<lambda>c. highlightColumn (int c) b) cs w) = isPlaying w"
  "currentColumn (fold (\<lambda>c. highlightColumn (int c) b) cs w) = currentColumn w"
  "timerId (fold (\<lambda>c. highlightColumn (int c) b) cs w) = timerId w"
  "cols (fold (\<lambda>c. highlightColumn (int c) b) cs w) = cols w"
  "notes (fold (\<lambda>c. highlightColumn (int c) b) cs w) = notes w"
  "gridState (fold (\<lambda>c. highlightColumn (int c) b) cs w) = gridState w"
  "tempoInput (fold (\<lambda>c. highlightColumn (int c) b) cs w) = tempoInput w"
  "waveSelect (fold (\<lambda>c. highlightColumn (int c) b) cs w) = waveSelect w"
  "playButtonText (fold (\<lambda>c. highlightColumn (int c) b) cs w) = playButtonText w"
  "audioContext (fold (\<lambda>c. highlightColumn (int c) b) cs w) = audioContext w"
  "suspended (fold (\<lambda>c. highlightColumn (int c) b) cs w) = suspended w"
  "currentTime (fold (\<lambda>c. highlightColumn (int c) b) cs w) = currentTime w"
  "voices (fold (\<lambda>c. highlightColumn (int c) b) cs w) = voices w"
  "timers (fold (\<lambda>c. highlightColumn (int c) b) cs w) = timers w"
  "nextHandle (fold (\<lambda>c. highlightColumn (int c) b) cs w) = nextHandle w"
  "mathPow (fold (\<lambda>c. highlightColumn (int c) b) cs w) = mathPow w"
  by (induction cs arbitrary: w; simp)+

lemma jsRem_mod: "0 \<le> a \<Longrightarrow> 0 < b \<Longrightarrow> jsRem a b = a mod b"
  by (cases "a = 0") (simp_all add: jsRem_def)

lemma playbackStep_stopped: "\<not> isPlaying w \<Longrightarrow> playbackStep w = Returned w"
  by (simp add: playbackStep_def)

lemma ensureAudioContext_fields [simp]:
  "isPlaying (ensureAudioContext w) = isPlaying w"
  "currentColumn (ensureAudioContext w) = currentColumn w"
  "timerId (ensureAudioContext w) = timerId w"
  "cols (ensureAudioContext w) = cols w"
  "notes (ensureAudioContext w) = notes w"
  "gridState (ensureAudioContext w) = gridState w"
  "gridInner (ensureAudioContext w) = gridInner w"
  "ruler (ensureAudioContext w) = ruler w"
  "tempoInput (ensureAudioContext w) = tempoInput w"
  "waveSelect (ensureAudioContext w) = waveSelect w"
  "playButtonText (ensureAudioContext w) = playButtonText w"
  "audioContext (ensureAudioContext w) = True"
  "suspended (ensureAudioContext w) = False"
  "currentTime (ensureAudioContext w) = currentTime w"
  "voices (ensureAudioContext w) = voices w"
  "timers (ensureAudioContext w) = timers w"
  "nextHandle (ensureAudioContext w) = nextHandle w"
  "mathPow (ensureAudioContext w) = mathPow w"
  "events (ensureAudioContext w) = events w"
  by (simp_all add: ensureAudioContext_def)

lemma playbackStep_playing:
  assumes "isPlaying w" "length (notes w) \<le> length (gridState w)"
    and "calculateNoteDuration (tempoInput w) 4 = Inr d"
  shows "\<exists>w' h. playbackStep w = Returned w' \<and> isPlaying w'
           \<and> currentColumn w' = jsRem (currentColumn w + 1) (cols w)
           \<and> timerId w' = Some h \<and> nextHandle w \<le> h
           \<and> timers w' h = Some (PlaybackStep, d)
           \<and> (\<forall>k c. k \<noteq> h \<and> timers w' k = Some (PlaybackStep, c)
                 \<longrightarrow> timers w k = Some (PlaybackStep, c))
           \<and> cols w' = cols w \<and> notes w' = notes w \<and> gridState w' = gridState w
           \<and> tempoInput w' = tempoInput w \<and> audioContext w'"
proof -
  define w1 where "w1 = ensureAudioContext w"
  define w2 where
    "w2 = worldOf (playActiveNotes [0..<length (notes w1)] (currentTime w1) (waveSelect w1) w1)"
  have "\<forall>r \<in> set [0..<length (notes w1)]. r < length (gridState w1)"
    using assms(2) by (simp add: w1_def)
  then have played:
    "playActiveNotes [0..<length (notes w1)] (currentTime w1) (waveSelect w1) w1 = Returned w2"
    unfolding w2_def by (rule playActiveNotes_returns)
  have f2: "isPlaying w2" "currentColumn w2 = currentColumn w" "cols w2 = cols w"
    "tempoInput w2 = tempoInput w"
    "notes w2 = notes w" "gridState w2 = gridState w" "audioContext w2"
    using assms(1) by (simp_all add: w2_def w1_def)
  have "notificationsArmed w1 w2" unfolding w2_def by (rule playActiveNotes_armed)
  then have armed: "nextHandle w \<le> nextHandle w2"
    "\<And>k. timers w2 k = timers w k \<or> (\<exists>key. timers w2 k = Some (RemoveNotification key, 3000))"
    by (simp_all add: notificationsArmed_def w1_def)
  have old: "timers w k = Some (PlaybackStep, c)"
    if "timers w2 k = Some (PlaybackStep, c)" for k c
    using armed(2)[of k] that by auto
  define w' where
    "w' = ((snd (setTimeout PlaybackStep d
              ((highlightColumn (currentColumn w) True
                  (highlightColumn (jsRem (currentColumn w - 1 + cols w) (cols w)) False w2))
                 \<lparr>currentColumn := jsRem (currentColumn w + 1) (cols w)\<rparr>)))
            \<lparr>timerId := Some (nextHandle w2)\<rparr>)"
  have step: "playbackStep w = Returned w'"
    unfolding playbackStep_def w1_def[symmetric] w'_def
    using assms(1,3) f2
    by (simp add: Let_def played getColumnDurationMs_def setTimeout_def)
  have fields: "isPlaying w'" "currentColumn w' = jsRem (currentColumn w + 1) (cols w)"
    "timerId w' = Some (nextHandle w2)"
    "timers w' = (timers w2)(nextHandle w2 \<mapsto> (PlaybackStep, d))"
    "cols w' = cols w" "notes w' = notes w" "gridState w' = gridState w"
    "tempoInput w' = tempoInput w" "audioContext w'"
    using f2 by (simp_all add: w'_def setTimeout_def)
  have others: "\<forall>k c. k \<noteq> nextHandle w2 \<and> timers w' k = Some (PlaybackStep, c)
                 \<longrightarrow> timers w k = Some (PlaybackStep, c)"
    using old by (simp add: fields(4))
  show ?thesis
    using step fields armed(1) others
    by (intro exI[where x = w'] exI[where x = "nextHandle w2"]) simp
qed

section \<open>Steps of a well-formed session\<close>

lemma duration_defined:
  "isNumberInRange t 1 1000 \<Longrightarrow> \<exists>d. calculateNoteDuration t 4 = Inr d"
  by (cases t) (simp_all add: calculateNoteDuration_def isNumberInRange_def)

lemma playbackStep_wellFormed:
  assumes "isPlaying w" "wellFormed w"
  shows "\<exists>w'. playbackStep w = Returned w' \<and> isPlaying w' \<and> wellFormed w'
           \<and> currentColumn w' = (currentColumn w + 1) mod cols w
           \<and> cols w' = cols w"
proof -
  from assms(2) obtain d where d: "calculateNoteDuration (tempoInput w) 4 = Inr d"
    using duration_defined by (auto simp add: wellFormed_def)
  from assms(2) have rows: "length (notes w) \<le> length (gridState w)"
    by (simp add: wellFormed_def)
  from playbackStep_playing[OF assms(1) rows d]
  obtain w' where w': "playbackStep w = Returned w'" "isPlaying w'"
    "currentColumn w' = jsRem (currentColumn w + 1) (cols w)"
    "cols w' = cols w" "notes w' = notes w" "gridState w' = gridState w"
    "tempoInput w' = tempoInput w"
    by blast
  have "jsRem (currentColumn w + 1) (cols w) = (currentColumn w + 1) mod cols w"
    using assms(2) by (intro jsRem_mod) (simp_all add: wellFormed_def)
  then show ?thesis
    using w' assms(2) by (simp add: wellFormed_def)
qed

lemma steps_advance:
  "isPlaying w \<Longrightarrow> wellFormed w \<Longrightarrow>
   isPlaying (steps n w) \<and> wellFormed (steps n w) \<and> cols (steps n w) = cols w
   \<and> currentColumn (steps n w) = (currentColumn w + int n) mod cols w"
proof (induction n arbitrary: w)
  case 0
  then show ?case by (simp add: wellFormed_def)
next
  case (Suc n)
  from playbackStep_wellFormed[OF Suc.prems]
  obtain w' where w': "playbackStep w = Returned w'" "isPlaying w'" "wellFormed w'"
    "currentColumn w' = (currentColumn w + 1) mod cols w" "cols w' = cols w"
    by blast
  from Suc.IH[OF w'(2,3)] w' show ?case
    by (simp add: mod_add_left_eq add.assoc)
qed

lemma visited_advance:
  "isPlaying w \<Longrightarrow> wellFormed w \<Longrightarrow>
   visited n w = map (\<lambda>k. (currentColumn w + int k) mod cols w) [0..<n]"
proof (induction n arbitrary: w)
  case 0
  then show ?case by simp
next
  case (Suc n)
  from playbackStep_wellFormed[OF Suc.prems]
  obtain w' where w': "playbackStep w = Returned w'" "isPlaying w'" "wellFormed w'"
    "currentColumn w' = (currentColumn w + 1) mod cols w" "cols w' = cols w"
    by blast
  have cc: "currentColumn w mod cols w = currentColumn w"
    using Suc.prems(2) by (simp add: wellFormed_def)
  have "visited (Suc n) w = currentColumn w # visited n w'" using w'(1) by simp
  also have "visited n w' = map (\<lambda>k. (currentColumn w' + int k) mod cols w') [0..<n]"
    by (rule Suc.IH[OF w'(2,3)])
  also have "\<dots> = map (\<lambda>k. (currentColumn w + int (Suc k)) mod cols w) [0..<n]"
    by (simp add: w' mod_simps ac_simps)
  finally have v: "visited (Suc n) w =
      currentColumn w # map (\<lambda>k. (currentColumn w + int (Suc k)) mod cols w) [0..<n]" .
  have "[0..<Suc n] = 0 # map Suc [0..<n]"
    by (simp add: upt_conv_Cons map_Suc_upt del: upt_Suc)
  then have "map (\<lambda>k. (currentColumn w + int k) mod cols w) [0..<Suc n] =
      currentColumn w # map (\<lambda>k. (currentColumn w + int (Suc k)) mod cols w) [0..<n]"
    by (simp add: cc comp_def del: upt_Suc)
  with v show ?case by simp
qed

lemma sixteen_columns:
  "map (\<lambda>k. (0 + int k) mod 16) [0..<16] = [0, 1, 2, 3, 4, 5, 6, 7, 8, 9, 10, 11, 12, 13, 14, 15]"
  by code_simp


section \<open>Column duration\<close>

text \<open>
  Claim C1, as amended. For every integer tempo from 1 to 1000 the column duration is the
  double that \<open>((60 / bpm) * 1000) / 4\<close> evaluates to, each of the three operations
  rounded to the nearest double. It differs from \<open>60000 / bpm / 4\<close> by at most the
  fraction \<open>2^-51\<close> of that value; it is exactly 125 at 120 beats per minute and exactly
  250 at 60. A step computes it from the tempo that the input holds when the step runs: the
  timer whose handle it stores in \<open>timerId\<close> calls \<open>playbackStep\<close> after the duration of
  the current tempo, whatever was armed before.
\<close>

theorem columnDuration_rounded:
  assumes "1 \<le> bpm" and "bpm \<le> 1000"
  shows "(\<exists>d. getColumnDurationMs (w\<lparr>tempoInput := Some bpm\<rparr>) = Inr d
            \<and> d = fl (fl (fl (60 / of_int bpm) * 1000) / 4)
            \<and> \<bar>d - specColumnDuration bpm\<bar> \<le> specColumnDuration bpm / 2 ^ 51
            \<and> (isPlaying w \<and> length (notes w) \<le> length (gridState w) \<longrightarrow>
                 (\<exists>w' h. playbackStep (w\<lparr>tempoInput := Some bpm\<rparr>) = Returned w'
                    \<and> timerId w' = Some h \<and> timers w' h = Some (PlaybackStep, d))))
         \<and> getColumnDurationMs (w\<lparr>tempoInput := Some 120\<rparr>) = Inr 125
         \<and> getColumnDurationMs (w\<lparr>tempoInput := Some 60\<rparr>) = Inr 250"
proof -
  define d where "d = fl (fl (fl (60 / of_int bpm) * 1000) / 4)"
  have dur: "calculateNoteDuration (Some bpm) 4 = Inr d"
    using assms by (simp add: calculateNoteDuration_def isNumberInRange_def d_def)
  have "(0::rat) < 60 / of_int bpm" using assms by simp
  from three_roundings[OF this]
  have err: "\<bar>d - specColumnDuration bpm\<bar> \<le> specColumnDuration bpm / 2 ^ 51"
    by (simp add: d_def specColumnDuration_def)
  have step: "\<exists>w' h. playbackStep (w\<lparr>tempoInput := Some bpm\<rparr>) = Returned w'
                \<and> timerId w' = Some h \<and> timers w' h = Some (PlaybackStep, d)"
    if "isPlaying w" "length (notes w) \<le> length (gridState w)"
  proof -
    let ?w = "w\<lparr>tempoInput := Some bpm\<rparr>"
    from playbackStep_playing[of ?w d] that dur
    obtain w' h where "playbackStep ?w = Returned w'" "timerId w' = Some h"
      "timers w' h = Some (PlaybackStep, d)"
      by auto
    then show ?thesis by blast
  qed
  show ?thesis
    using dur err step
    by (simp add: getColumnDurationMs_def duration_120 duration_60 d_def)
qed

text \<open>
  The theorem at 90 beats per minute, on the sample session whose first row carries the
  invalid name \<open>H4\<close>: the step first arms the removal of the notification under handle 0,
  and the handle it stores in \<open>timerId\<close> is 1.
\<close>

theorem columnDuration_rounded_witness:
  "(1::int) \<le> 90 \<and> (90::int) \<le> 1000 \<and> isPlaying sampleInvalid
   \<and> length (notes sampleInvalid) \<le> length (gridState sampleInvalid)
   \<and> timerId (worldOf (playbackStep (sampleInvalid\<lparr>tempoInput := Some 90\<rparr>))) = Some 1
   \<and> timers (worldOf (playbackStep (sampleInvalid\<lparr>tempoInput := Some 90\<rparr>))) 1
       = Some (PlaybackStep, fl (fl (fl (60 / of_int 90) * 1000) / 4))
   \<and> getColumnDurationMs (sampleInvalid\<lparr>tempoInput := Some 120\<rparr>) = Inr 125"
proof -
  have p: "isPlaying sampleInvalid"
    and r: "length (notes sampleInvalid) \<le> length (gridState sampleInvalid)"
    and t: "timerId (worldOf (playbackStep (sampleInvalid\<lparr>tempoInput := Some 90\<rparr>))) = Some 1"
    by code_simp+
  from columnDuration_rounded[of 90 sampleInvalid] p r
  obtain w' h where "playbackStep (sampleInvalid\<lparr>tempoInput := Some 90\<rparr>) = Returned w'"
    "timerId w' = Some h"
    "timers w' h = Some (PlaybackStep, fl (fl (fl (60 / of_int 90) * 1000) / 4))"
    "getColumnDurationMs (sampleInvalid\<lparr>tempoInput := Some 120\<rparr>) = Inr 125"
    by auto
  with t p r show ?thesis by simp
qed

text \<open>
  At 11 beats per minute the code returns \<open>1363.6363636363635\<close>, which is neither the
  quotient \<open>15000 / 11\<close> nor the double \<open>1363.6363636363637\<close> that the expression
  \<open>60000 / 11 / 4\<close> evaluates to.
\<close>

theorem columnDuration_exact_counterexample:
  "getColumnDurationMs (sampleWorld\<lparr>tempoInput := Some 11\<rparr>) \<noteq> Inr (specColumnDuration 11)
   \<and> getColumnDurationMs (sampleWorld\<lparr>tempoInput := Some 11\<rparr>) \<noteq> Inr (specColumnDurationDouble 11)"
  by (simp add: getColumnDurationMs_def duration_11 specColumnDurationDouble_11
      specColumnDuration_def)





section \<open>Column wraparound\<close>

text \<open>
  Claim C3. In a playing, well-formed session each execution of \<open>playbackStep\<close> returns
  and moves \<open>currentColumn\<close> to \<open>(currentColumn + 1) mod cols\<close>; \<open>n\<close> consecutive
  steps play the columns \<open>currentColumn, currentColumn + 1, \<dots>\<close> modulo the column count
  in that order. With sixteen columns and the cursor at 0, sixteen steps play the columns
  0 to 15 once each, in increasing order, and leave the cursor at 0 again.
\<close>

theorem playbackStep_advances:
  assumes "isPlaying w" and "wellFormed w"
  shows "(\<exists>w'. playbackStep w = Returned w' \<and> isPlaying w'
            \<and> currentColumn w' = (currentColumn w + 1) mod cols w)
         \<and> visited n w = map (\<lambda>k. (currentColumn w + int k) mod cols w) [0..<n]
         \<and> (cols w = 16 \<and> currentColumn w = 0 \<longrightarrow>
               visited 16 w = [0, 1, 2, 3, 4, 5, 6, 7, 8, 9, 10, 11, 12, 13, 14, 15]
               \<and> currentColumn (steps 16 w) = 0)"
proof -
  have a: "\<exists>w'. playbackStep w = Returned w' \<and> isPlaying w'
            \<and> currentColumn w' = (currentColumn w + 1) mod cols w"
    using playbackStep_wellFormed[OF assms] by blast
  have b: "visited n w = map (\<lambda>k. (currentColumn w + int k) mod cols w) [0..<n]" for n
    by (rule visited_advance[OF assms])
  have c: "visited 16 w = [0, 1, 2, 3, 4, 5, 6, 7, 8, 9, 10, 11, 12, 13, 14, 15]
           \<and> currentColumn (steps 16 w) = 0"
    if "cols w = 16" "currentColumn w = 0"
    using b[of 16] steps_advance[OF assms, of 16] that sixteen_columns by simp
  show ?thesis using a b c by blast
qed


text \<open>The sample session at the moment \<open>startPlayback\<close> hands over to its first step.\<close>

theorem playbackStep_advances_witness:
  "isPlaying (sampleWorld\<lparr>isPlaying := True\<rparr>)
   \<and> wellFormed (sampleWorld\<lparr>isPlaying := True\<rparr>)
   \<and> cols (sampleWorld\<lparr>isPlaying := True\<rparr>) = 16
   \<and> currentColumn (sampleWorld\<lparr>isPlaying := True\<rparr>) = 0
   \<and> visited 16 (sampleWorld\<lparr>isPlaying := True\<rparr>)
       = [0, 1, 2, 3, 4, 5, 6, 7, 8, 9, 10, 11, 12, 13, 14, 15]
   \<and> currentColumn (steps 16 (sampleWorld\<lparr>isPlaying := True\<rparr>)) = 0"
proof -
  have h: "isPlaying (sampleWorld\<lparr>isPlaying := True\<rparr>)"
    "wellFormed (sampleWorld\<lparr>isPlaying := True\<rparr>)"
    "cols (sampleWorld\<lparr>isPlaying := True\<rparr>) = 16"
    "currentColumn (sampleWorld\<lparr>isPlaying := True\<rparr>) = 0"
    by (simp_all add: sampleWorld_def wellFormed_def isNumberInRange_def)
  show ?thesis
    using playbackStep_advances[OF h(1,2), of 0] h by simp
qed


section \<open>Note names and frequencies\<close>

lemma pitchClass_index:
  "i < 12 \<Longrightarrow> map_of noteMap (pitchClasses ! i) = Some (int i) \<and> inNoteMap (pitchClasses ! i)"
proof -
  assume "i < 12"
  then have "i = 0 \<or> i = 1 \<or> i = 2 \<or> i = 3 \<or> i = 4 \<or> i = 5 \<or> i = 6 \<or> i = 7
      \<or> i = 8 \<or> i = 9 \<or> i = 10 \<or> i = 11" by arith
  then show ?thesis
    by (auto simp add: noteMap_def pitchClasses_def inNoteMap_def)
qed

lemma octaveDigit_value:
  "k \<le> 8 \<Longrightarrow> parseIntChar (octaveDigit k) = Some (int k)"
proof -
  assume "k \<le> 8"
  then have "k = 0 \<or> k = 1 \<or> k = 2 \<or> k = 3 \<or> k = 4 \<or> k = 5 \<or> k = 6 \<or> k = 7
      \<or> k = 8" by arith
  then show ?thesis
    by (auto simp add: parseIntChar_def octaveDigit_def)
qed

lemma semitone_exponent:
  fixes s :: int
  assumes "- 57 \<le> s" "s \<le> 50"
  shows "\<bar>(of_rat (fl (of_int s / 12)) :: real) - of_int s / 12\<bar> \<le> 5 / 2 ^ 53"
proof -
  have e: "(of_rat (of_int s / 12) :: real) = of_int s / 12"
    by (simp add: of_rat_divide)
  have "\<bar>(of_int s :: real)\<bar> \<le> 57" using assms by simp
  then have "\<bar>(of_int s / 12 :: real)\<bar> \<le> 5" by simp
  then have "\<bar>(of_int s / 12 :: real)\<bar> / 2 ^ 53 \<le> 5 / 2 ^ 53"
    by (simp only: divide_right_mono zero_le_numeral zero_le_power)
  with fl_error_real[of "of_int s / 12"] show ?thesis
    unfolding e by linarith
qed

lemma frequency_error:
  fixes s :: int and \<delta> :: real
  assumes s: "- 57 \<le> s" "s \<le> 50"
    and host: "powWithin \<delta> host (fl (of_int s / 12))"
  shows "\<bar>of_rat (fl (440 * Math_pow host (fl (of_int s / 12)))) - specFrequency s\<bar>
           \<le> (\<delta> + (1 + \<delta>) / 2 ^ 49) * specFrequency s"
proof -
  define x :: real where "x = of_int s / 12"
  define t :: real where "t = of_rat (fl (of_int s / 12))"
  define X where "X = 2 powr x"
  define T where "T = 2 powr t"
  define P :: real where "P = of_rat (Math_pow host (fl (of_int s / 12)))"
  define F :: real where "F = of_rat (fl (440 * Math_pow host (fl (of_int s / 12))))"
  define a :: real where "a = 10 / 2 ^ 53"
  define b :: real where "b = 1 / 2 ^ 53"
  have X: "0 < X" and T: "0 < T" by (simp_all add: X_def T_def)
  have ab: "0 \<le> a" "0 \<le> b" by (simp_all add: a_def b_def)
  have tx: "\<bar>t - x\<bar> \<le> 5 / 2 ^ 53"
    using semitone_exponent[OF s] by (simp add: t_def x_def)
  then have "\<bar>t - x\<bar> \<le> 1 / 2" by simp
  from powr_near_one[OF this] tx have r: "\<bar>2 powr (t - x) - 1\<bar> \<le> a"
    by (simp add: a_def)
  have "T = X * 2 powr (t - x)"
    by (simp add: T_def X_def powr_add[symmetric])
  then have "T - X = X * (2 powr (t - x) - 1)" by (simp add: algebra_simps)
  then have "\<bar>T - X\<bar> = X * \<bar>2 powr (t - x) - 1\<bar>"
    using X by (simp add: abs_mult)
  also have "\<dots> \<le> X * a" using r X by (intro mult_left_mono) simp_all
  finally have TX: "\<bar>T - X\<bar> \<le> a * X" by (simp add: mult.commute)
  have PT: "\<bar>P - T\<bar> \<le> \<delta> * T"
    using host by (simp add: powWithin_def P_def T_def t_def)
  have "0 \<le> \<delta> * T" using PT by linarith
  then have d: "0 \<le> \<delta>" using T by (simp add: zero_le_mult_iff)
  have FP: "\<bar>F - 440 * P\<bar> \<le> (440 * \<bar>P\<bar>) * b"
    using fl_error_real[of "440 * Math_pow host (fl (of_int s / 12))"]
    by (simp add: F_def P_def b_def of_rat_mult abs_mult)
  have "(1 + a) * X = X + a * X" by (simp add: algebra_simps)
  with TX have T_le: "T \<le> (1 + a) * X" by linarith
  have "(1 + \<delta>) * T = T + \<delta> * T" by (simp add: algebra_simps)
  with PT T have "\<bar>P\<bar> \<le> (1 + \<delta>) * T" by linarith
  also have "\<dots> \<le> (1 + \<delta>) * ((1 + a) * X)"
    using T_le d by (intro mult_left_mono) simp_all
  finally have P_le: "\<bar>P\<bar> \<le> (1 + \<delta>) * ((1 + a) * X)" .
  have "(440 * \<bar>P\<bar>) * b \<le> (440 * ((1 + \<delta>) * ((1 + a) * X))) * b"
    using P_le ab by (intro mult_right_mono) simp_all
  with FP have 1: "\<bar>F - 440 * P\<bar> \<le> (440 * ((1 + \<delta>) * ((1 + a) * X))) * b"
    by linarith
  have "\<delta> * T \<le> \<delta> * ((1 + a) * X)"
    using T_le d by (intro mult_left_mono) simp_all
  with PT have 2: "\<bar>P - T\<bar> \<le> \<delta> * ((1 + a) * X)" by linarith
  have "\<bar>u + 440 * v + 440 * w\<bar> \<le> \<bar>u\<bar> + 440 * \<bar>v\<bar> + 440 * \<bar>w\<bar>" for u v w :: real
    by (simp add: abs_le_iff) linarith
  from this[of "F - 440 * P" "P - T" "T - X"]
  have "\<bar>F - 440 * X\<bar> \<le> \<bar>F - 440 * P\<bar> + 440 * \<bar>P - T\<bar> + 440 * \<bar>T - X\<bar>"
    by (simp add: algebra_simps)
  also have "\<dots> \<le> (440 * ((1 + \<delta>) * ((1 + a) * X))) * b
      + 440 * (\<delta> * ((1 + a) * X)) + 440 * (a * X)"
  proof -
    have p2: "440 * \<bar>P - T\<bar> \<le> 440 * (\<delta> * ((1 + a) * X))"
      using 2 by (intro mult_left_mono) simp_all
    have p3: "440 * \<bar>T - X\<bar> \<le> 440 * (a * X)"
      using TX by (intro mult_left_mono) simp_all
    show ?thesis by (intro add_mono 1 p2 p3)
  qed
  also have "\<dots> = (\<delta> + (1 + \<delta>) * (a + b + a * b)) * (440 * X)"
    by (simp add: algebra_simps)
  also have "\<dots> \<le> (\<delta> + (1 + \<delta>) / 2 ^ 49) * (440 * X)"
  proof -
    have "a + b + a * b \<le> 1 / 2 ^ 49" by (simp add: a_def b_def)
    then have "(1 + \<delta>) * (a + b + a * b) \<le> (1 + \<delta>) * (1 / 2 ^ 49)"
      using d by (intro mult_left_mono) simp_all
    then have "\<delta> + (1 + \<delta>) * (a + b + a * b) \<le> \<delta> + (1 + \<delta>) / 2 ^ 49"
      by simp
    then show ?thesis using X by (intro mult_right_mono) simp_all
  qed
  finally show ?thesis
    by (simp add: F_def specFrequency_def X_def x_def)
qed

lemma noteToFrequency_A4: "noteToFrequency host (JStr ''A4'') = Inr (Num 440)"
  by (simp add: noteToFrequency_def inNoteMap_def noteMap_def parseIntChar_def
      Math_pow_def fl_440 fl_0)

lemma semitone_range:
  fixes i k :: nat
  assumes "i < 12" "k \<le> 8"
  shows "- 57 \<le> (int k - 4) * 12 + int i - 9" "(int k - 4) * 12 + int i - 9 \<le> 50"
  using assms by simp_all

lemma noteToFrequency_parsed:
  assumes "i < 12" and "k \<le> 8"
  shows "noteToFrequency host (JStr (pitchClasses ! i @ [octaveDigit k]))
           = Inr (Num (fl (440 * Math_pow host (fl (of_int ((int k - 4) * 12 + int i - 9) / 12)))))"
  using pitchClass_index[OF assms(1)] octaveDigit_value[OF assms(2)] assms(2)
  by (simp add: noteToFrequency_def Let_def)

lemma sampleHost_semitone: "powWithin (1 / 2 ^ 49) sampleHost (fl (of_int 1 / 12))"
proof -
  define R :: real where "R = 2 powr (1 / 12)"
  define p :: real where "p = 4771397596969315 / 4503599627370496"
  define u :: real where "u = 6004799503160661 / 72057594037927936 - 1 / 12"
  have t: "fl (1 / 12) = 6004799503160661 / 72057594037927936" by code_simp
  have P: "Math_pow sampleHost (6004799503160661 / 72057594037927936)
      = 4771397596969315 / 4503599627370496" by code_simp
  have R12: "R ^ Suc 11 = 2" by (simp add: R_def powr_power)
  have R0: "0 \<le> R" by (simp add: R_def)
  have "(p - 1 / 2 ^ 50) ^ Suc 11 \<le> 2" by (simp add: p_def power_divide)
  then have "(p - 1 / 2 ^ 50) ^ Suc 11 \<le> R ^ Suc 11" by (simp only: R12)
  then have lo: "p - 1 / 2 ^ 50 \<le> R" using R0 by (rule power_le_imp_le_base)
  have "2 \<le> (p + 1 / 2 ^ 50) ^ Suc 11" by (simp add: p_def power_divide)
  then have "R ^ Suc 11 \<le> (p + 1 / 2 ^ 50) ^ Suc 11" by (simp only: R12)
  moreover have "0 \<le> p + 1 / 2 ^ 50" by (simp add: p_def)
  ultimately have hi: "R \<le> p + 1 / 2 ^ 50" by (rule power_le_imp_le_base)
  have p1: "1 + 1 / 2 ^ 5 \<le> p" "p \<le> 1 + 1 / 2 ^ 4" by (simp_all add: p_def)
  have uu: "\<bar>u\<bar> \<le> 1 / 2 ^ 56" by (simp add: u_def)
  then have "\<bar>u\<bar> \<le> 1 / 2" by simp
  from powr_near_one[OF this] uu have pu: "\<bar>2 powr u - 1\<bar> \<le> 1 / 2 ^ 55" by simp
  define T :: real where "T = 2 powr (6004799503160661 / 72057594037927936)"
  have "T = R * 2 powr u"
    unfolding T_def R_def u_def powr_add[symmetric] by simp
  then have "T - R = R * (2 powr u - 1)" by (simp add: algebra_simps)
  then have "\<bar>T - R\<bar> = R * \<bar>2 powr u - 1\<bar>" using R0 by (simp add: abs_mult)
  also have "\<dots> \<le> 2 * (1 / 2 ^ 55)"
    using pu hi p1 R0 by (intro mult_mono) simp_all
  finally have TR: "\<bar>T - R\<bar> \<le> 1 / 2 ^ 54" by simp
  have e: "(1 / 2 ^ 54 :: real) \<le> 1 / 2 ^ 50" "(1 / 2 ^ 50 :: real) + 1 / 2 ^ 50 = 1 / 2 ^ 49"
    "(0::real) \<le> 1 / 2 ^ 50" "(1 / 2 ^ 5 :: real) = 2 * (1 / 2 ^ 6)"
    "(1 / 2 ^ 50 :: real) \<le> 1 / 2 ^ 6"
    by simp_all
  have T1: "1 \<le> T" using TR lo p1 e by linarith
  have "\<bar>p - T\<bar> \<le> 1 / 2 ^ 49" using TR lo hi e by linarith
  also have "\<dots> \<le> 1 / 2 ^ 49 * T" using T1 by simp
  finally show ?thesis
    by (simp add: powWithin_def t P p_def T_def of_rat_divide)
qed

text \<open>
  Claim C8, as amended. For the pitch class at position \<open>i\<close> of the chromatic scale (C at
  0) followed by the octave digit \<open>k\<close> from 0 to 8, and \<open>s = (k - 4) * 12 + i - 9\<close>,
  \<open>noteToFrequency\<close> returns the double \<open>440 * Math.pow(2, s / 12)\<close>: the quotient
  rounded, the host's power of it, the product rounded. If the host's power at that
  exponent is within the relative error \<open>\<delta>\<close> of the real power, the result is within
  the relative error \<open>\<delta> + (1 + \<delta>) / 2^49\<close> of \<open>440 * 2^(s/12)\<close>. For \<open>A4\<close> the
  result is exactly 440, whatever the host.
\<close>

theorem noteToFrequency_equal_temperament:
  assumes "i < 12" and "k \<le> 8"
    and "powWithin \<delta> host (fl (of_int ((int k - 4) * 12 + int i - 9) / 12))"
  shows "(\<exists>f. noteToFrequency host (JStr (pitchClasses ! i @ [octaveDigit k])) = Inr (Num f)
            \<and> f = fl (440 * Math_pow host (fl (of_int ((int k - 4) * 12 + int i - 9) / 12)))
            \<and> \<bar>of_rat f - specFrequency ((int k - 4) * 12 + int i - 9)\<bar>
                 \<le> (\<delta> + (1 + \<delta>) / 2 ^ 49) * specFrequency ((int k - 4) * 12 + int i - 9))
         \<and> noteToFrequency host (JStr ''A4'') = Inr (Num 440)"
  using noteToFrequency_parsed[OF assms(1,2)]
    frequency_error[OF semitone_range[OF assms(1,2)] assms(3)] noteToFrequency_A4
  by simp

text \<open>
  The theorem at pitch class 10 (A#) and octave 4, one semitone above A4, on the sample
  host, whose power at that exponent is within \<open>2^-49\<close> of the real one.
\<close>

theorem noteToFrequency_equal_temperament_witness:
  "(10::nat) < 12 \<and> (4::nat) \<le> 8 \<and> pitchClasses ! 10 @ [octaveDigit 4] = ''A#4''
   \<and> powWithin (1 / 2 ^ 49) sampleHost (fl (of_int ((int 4 - 4) * 12 + int 10 - 9) / 12))
   \<and> noteToFrequency sampleHost (JStr ''A#4'') = Inr (Num (4100419809895505 / 8796093022208))
   \<and> \<bar>of_rat (4100419809895505 / 8796093022208) - specFrequency 1\<bar>
        \<le> (1 / 2 ^ 49 + (1 + 1 / 2 ^ 49) / 2 ^ 49) * specFrequency 1
   \<and> noteToFrequency sampleHost (JStr ''A4'') = Inr (Num 440)"
proof -
  have n: "pitchClasses ! 10 @ [octaveDigit 4] = ''A#4''"
    by (simp add: pitchClasses_def octaveDigit_def)
  have s: "(int 4 - 4) * 12 + int 10 - 9 = 1" by simp
  have h: "powWithin (1 / 2 ^ 49) sampleHost (fl (of_int ((int 4 - 4) * 12 + int 10 - 9) / 12))"
    unfolding s by (rule sampleHost_semitone)
  have v: "noteToFrequency sampleHost (JStr ''A#4'')
      = Inr (Num (4100419809895505 / 8796093022208))"
    by code_simp
  from noteToFrequency_equal_temperament[of 10 4 "1 / 2 ^ 49" sampleHost, OF _ _ h]
  obtain f where f: "noteToFrequency sampleHost (JStr ''A#4'') = Inr (Num f)"
    and b: "\<bar>of_rat f - specFrequency 1\<bar>
               \<le> (1 / 2 ^ 49 + (1 + 1 / 2 ^ 49) / 2 ^ 49) * specFrequency 1"
    and a4: "noteToFrequency sampleHost (JStr ''A4'') = Inr (Num 440)"
    unfolding n s by auto
  from f v have "Inr (Num f) = (Inr (Num (4100419809895505 / 8796093022208)) :: error + jsnum)"
    by (simp only:)
  then have fe: "f = 4100419809895505 / 8796093022208"
    by (simp only: sum.inject jsnum.inject)
  have c: "(10::nat) < 12" "(4::nat) \<le> 8" by simp_all
  from c n h v b[unfolded fe] a4 show ?thesis by blast
qed

text \<open>
  With the sample host \<open>A#4\<close> resolves to the double \<open>466.1637615180899\<close>. It is a
  rational number, and its quotient by 440 is not a twelfth root of 2.
\<close>

theorem noteToFrequency_exact_counterexample:
  "noteToFrequency sampleHost (JStr ''A#4'') = Inr (Num (4100419809895505 / 8796093022208))
   \<and> (of_rat (4100419809895505 / 8796093022208) :: real) \<noteq> specFrequency 1"
proof -
  have v: "noteToFrequency sampleHost (JStr ''A#4'')
      = Inr (Num (4100419809895505 / 8796093022208))"
    by code_simp
  have "(of_rat (4100419809895505 / 8796093022208) :: real) \<noteq> specFrequency 1"
  proof
    assume "(of_rat (4100419809895505 / 8796093022208) :: real) = specFrequency 1"
    then have "(of_rat (4100419809895505 / 8796093022208 / 440) :: real) = 2 powr (1 / 12)"
      by (simp add: specFrequency_def of_rat_divide)
    then have "(of_rat (4100419809895505 / 8796093022208 / 440) :: real) ^ 12
        = (2 powr (1 / 12)) ^ 12" by (rule arg_cong)
    also have "\<dots> = (2::real)"
      by (simp add: powr_power)
    finally have "(of_rat ((4100419809895505 / 8796093022208 / 440) ^ 12) :: real) = of_rat 2"
      by (simp only: of_rat_power of_rat_numeral_eq)
    then have "((4100419809895505 / 8796093022208 / 440) ^ 12 :: rat) = 2"
      by (simp only: of_rat_eq_iff)
    moreover have "((4100419809895505 / 8796093022208 / 440) ^ 12 :: rat) \<noteq> 2"
      by (simp add: power_divide)
    ultimately show False by blast
  qed
  with v show ?thesis by simp
qed

lemma specValidNote_parts:
  assumes "specValidNote v"
  shows "\<exists>i k. i < 12 \<and> k \<le> 8 \<and> v = JStr (pitchClasses ! i @ [octaveDigit k])"
proof -
  from assms obtain s where s: "v = JStr s" "s \<noteq> []" "butlast s \<in> set pitchClasses"
    "last s \<in> set ''012345678''"
    by (auto simp add: specValidNote_def split: jsval.splits)
  have "length pitchClasses = 12" by (simp add: pitchClasses_def)
  with s(3) obtain i where i: "i < 12" "butlast s = pitchClasses ! i"
    by (metis in_set_conv_nth)
  have "length ''012345678'' = 9" by simp
  with s(4) obtain k where "k < 9" "last s = ''012345678'' ! k"
    by (metis in_set_conv_nth)
  then have k: "k \<le> 8" "last s = octaveDigit k"
    by (simp_all add: octaveDigit_def)
  have "s = pitchClasses ! i @ [octaveDigit k]"
    using s(2) i(2) k(2) by (metis append_butlast_last_id)
  with i(1) k(1) s(1) show ?thesis by blast
qed

lemma specValidNote_frequency:
  assumes "specValidNote v"
  shows "\<exists>f. noteToFrequency host v = Inr (Num f)"
proof -
  from specValidNote_parts[OF assms] obtain i k where
    "i < 12" "k \<le> 8" "v = JStr (pitchClasses ! i @ [octaveDigit k])" by blast
  with noteToFrequency_parsed[of i k host] show ?thesis by simp
qed

lemma frequency_specValidNote:
  assumes "noteToFrequency host v = Inr (Num f)"
  shows "specValidNote v"
proof (cases v)
  case (JStr s)
  from assms JStr have ne: "s \<noteq> []"
    by (auto simp add: noteToFrequency_def)
  from assms JStr ne obtain oct i where
    oct: "parseIntChar (last s) = Some oct" "0 \<le> oct" "oct \<le> 8"
    and i: "map_of noteMap (butlast s) = Some i"
    by (auto simp add: noteToFrequency_def Let_def split: if_splits option.splits)
  from i have "butlast s \<in> set pitchClasses"
    by (auto simp add: noteMap_def pitchClasses_def split: if_splits)
  moreover from oct have "last s \<in> set ''012345678''"
    by (auto simp add: parseIntChar_def split: if_splits)
  ultimately show ?thesis using JStr ne by (simp add: specValidNote_def)
qed (use assms in \<open>simp_all add: noteToFrequency_def\<close>)

lemma all_notes_valid: "list_all (\<lambda>n. specValidNote (JStr n)) ALL_NOTES"
  by code_simp


section \<open>Voices of a step\<close>

lemma voiceOf_invalid: "\<not> specValidNote (JStr n) \<Longrightarrow> voiceOf host n now wave = []"
  using frequency_specValidNote[of host "JStr n"]
  by (auto simp add: voiceOf_def split: sum.splits jsnum.splits)

lemma voiceOf_valid: "specValidNote (JStr n) \<Longrightarrow> length (voiceOf host n now wave) = 1"
  using specValidNote_frequency[of "JStr n" host]
  by (auto simp add: voiceOf_def)

lemma playNote_voices:
  "audioContext w \<Longrightarrow>
   voices (playNote (JStr n) now wave w) = voices w @ voiceOf (mathPow w) n now wave"
  by (simp add: playNote_def voiceOf_def split: sum.splits jsnum.splits)

lemma playNote_valid_events:
  "audioContext w \<Longrightarrow> specValidNote v \<Longrightarrow> events (playNote v now wave w) = events w"
  using specValidNote_frequency[of v "mathPow w"] by (auto simp add: playNote_def)

lemma playNote_invalid:
  assumes "audioContext w" "\<not> specValidNote v"
  shows "\<exists>e. playNote v now wave w =
           showNotification ''Failed to play note '' v
             (w\<lparr>events := events w @ [LogError ''Failed to play note:'' e]\<rparr>)"
proof (cases "noteToFrequency (mathPow w) v")
  case (Inl e)
  with assms(1) have "playNote v now wave w =
      showNotification ''Failed to play note '' v
        (w\<lparr>events := events w @ [LogError ''Failed to play note:'' e]\<rparr>)"
    by (simp add: playNote_def)
  then show ?thesis by (rule exI[where x = e])
next
  case (Inr x)
  show ?thesis
  proof (cases x)
    case (Num f)
    with Inr have "specValidNote v" by (simp add: frequency_specValidNote)
    with assms(2) show ?thesis by simp
  next
    case NaN
    with Inr assms(1) have "playNote v now wave w =
        showNotification ''Failed to play note '' v
          (w\<lparr>events := events w @ [LogError ''Failed to play note:'' TypeError]\<rparr>)"
      by (simp add: playNote_def)
    then show ?thesis by (rule exI[where x = TypeError])
  qed
qed

lemma expectedVoices_cong:
  assumes "gridState w' = gridState w" "currentColumn w' = currentColumn w" "notes w' = notes w"
    and "mathPow w' = mathPow w"
  shows "expectedVoices w' rows now wave = expectedVoices w rows now wave"
  using assms by (simp add: expectedVoices_def cong: if_cong)

lemma expectedVoices_Cons:
  "expectedVoices w (r # rows) now wave =
     (if cellActive (gridState w ! r) (currentColumn w)
      then voiceOf (mathPow w) (notes w ! r) now wave else [])
     @ expectedVoices w rows now wave"
  by (simp add: expectedVoices_def)

lemma playActiveNotes_voices:
  "audioContext w \<Longrightarrow> \<forall>r \<in> set rows. r < length (gridState w) \<Longrightarrow>
   voices (worldOf (playActiveNotes rows now wave w)) = voices w @ expectedVoices w rows now wave"
proof (induction rows arbitrary: w)
  case Nil
  then show ?case by (simp add: expectedVoices_def)
next
  case (Cons r rows)
  show ?case
  proof (cases "cellActive (gridState w ! r) (currentColumn w)")
    case True
    let ?w = "playNote (JStr (notes w ! r)) now wave w"
    have "voices (worldOf (playActiveNotes rows now wave ?w))
            = voices ?w @ expectedVoices ?w rows now wave"
      using Cons.prems by (intro Cons.IH) simp_all
    also have "expectedVoices ?w rows now wave = expectedVoices w rows now wave"
      by (rule expectedVoices_cong) simp_all
    finally show ?thesis
      using True Cons.prems by (simp add: playNote_voices expectedVoices_Cons)
  next
    case False
    then show ?thesis
      using Cons.prems Cons.IH[of w] by (simp add: expectedVoices_Cons)
  qed
qed

lemma playActiveNotes_valid_events:
  "audioContext w \<Longrightarrow>
   \<forall>r \<in> set rows. r < length (notes w) \<and> specValidNote (JStr (notes w ! r)) \<Longrightarrow>
   events (worldOf (playActiveNotes rows now wave w)) = events w"
proof (induction rows arbitrary: w)
  case Nil
  then show ?case by simp
next
  case (Cons r rows)
  let ?w = "playNote (JStr (notes w ! r)) now wave w"
  have "events (worldOf (playActiveNotes rows now wave ?w)) = events ?w"
    using Cons.prems by (intro Cons.IH) simp_all
  moreover have "events ?w = events w"
    using Cons.prems by (intro playNote_valid_events) simp_all
  moreover have "events (worldOf (playActiveNotes rows now wave w)) = events w"
    using Cons.prems by (intro Cons.IH) simp_all
  ultimately show ?case by simp
qed

lemma playbackStep_voices:
  assumes "isPlaying w" "length (notes w) \<le> length (gridState w)"
  shows "voices (worldOf (playbackStep w)) =
           voices w @ expectedVoices w [0..<length (notes w)] (currentTime w) (waveSelect w)"
proof -
  define w1 where "w1 = ensureAudioContext w"
  define w2 where
    "w2 = worldOf (playActiveNotes [0..<length (notes w1)] (currentTime w1) (waveSelect w1) w1)"
  have rows: "\<forall>r \<in> set [0..<length (notes w1)]. r < length (gridState w1)"
    using assms(2) by (simp add: w1_def)
  then have played:
    "playActiveNotes [0..<length (notes w1)] (currentTime w1) (waveSelect w1) w1 = Returned w2"
    unfolding w2_def by (rule playActiveNotes_returns)
  have "voices w2 = voices w1 @ expectedVoices w1 [0..<length (notes w1)] (currentTime w1) (waveSelect w1)"
    unfolding w2_def using rows by (intro playActiveNotes_voices) (simp_all add: w1_def)
  also have "\<dots> = voices w @ expectedVoices w [0..<length (notes w)] (currentTime w) (waveSelect w)"
    by (simp add: w1_def expectedVoices_cong[of "ensureAudioContext w" w])
  finally have v: "voices w2 = voices w @ expectedVoices w [0..<length (notes w)] (currentTime w) (waveSelect w)" .
  have p: "isPlaying w" by (rule assms(1))
  show ?thesis
  proof (cases "getColumnDurationMs
      ((highlightColumn (currentColumn (highlightColumn (jsRem (currentColumn w2 - 1 + cols w2) (cols w2)) False w2)) True
         (highlightColumn (jsRem (currentColumn w2 - 1 + cols w2) (cols w2)) False w2))
        \<lparr>currentColumn := jsRem (currentColumn (highlightColumn (currentColumn (highlightColumn (jsRem (currentColumn w2 - 1 + cols w2) (cols w2)) False w2)) True
         (highlightColumn (jsRem (currentColumn w2 - 1 + cols w2) (cols w2)) False w2)) + 1) (cols (highlightColumn (currentColumn (highlightColumn (jsRem (currentColumn w2 - 1 + cols w2) (cols w2)) False w2)) True
         (highlightColumn (jsRem (currentColumn w2 - 1 + cols w2) (cols w2)) False w2)))\<rparr>)")
    case (Inl e)
    then show ?thesis
      unfolding playbackStep_def w1_def[symmetric]
      using p v by (simp add: Let_def played)
  next
    case (Inr d)
    then show ?thesis
      unfolding playbackStep_def w1_def[symmetric]
      using p v by (simp add: Let_def played setTimeout_def)
  qed
qed


section \<open>Invalid note names\<close>

text \<open>
  Claim C9. With the audio context in place, \<open>playNote\<close> on a name that is not a valid
  note (not a string, empty, a pitch class outside the chromatic scale, an octave outside
  0 to 8) returns normally: it logs the caught error and hands the message to
  \<open>showNotification\<close>, and that is all it does; it starts no voice, the log grows by the
  error and the notification request, and the timer of the step loop is the one it was. The
  step that called it runs to its end, and the voices it starts are exactly those of the
  active rows with valid names, one each, in row order.
\<close>

theorem playNote_contains_invalid_note:
  "(audioContext w \<and> \<not> specValidNote noteName \<longrightarrow>
      (\<exists>e. playNote noteName now wave w =
             showNotification ''Failed to play note '' noteName
               (w\<lparr>events := events w @ [LogError ''Failed to play note:'' e]\<rparr>)
         \<and> events (playNote noteName now wave w) =
             events w @ [LogError ''Failed to play note:'' e,
                         ShowNotification ''Failed to play note '' noteName])
      \<and> voices (playNote noteName now wave w) = voices w
      \<and> timerId (playNote noteName now wave w) = timerId w
      \<and> isPlaying (playNote noteName now wave w) = isPlaying w
      \<and> currentColumn (playNote noteName now wave w) = currentColumn w)
   \<and> (isPlaying w \<and> length (notes w) \<le> length (gridState w)
        \<and> isNumberInRange (tempoInput w) 1 1000 \<longrightarrow>
      (\<exists>w'. playbackStep w = Returned w'
         \<and> voices w' = voices w @
              expectedVoices w [0..<length (notes w)] (currentTime w) (waveSelect w)))
   \<and> (\<not> specValidNote (JStr n) \<longrightarrow> voiceOf host n now wave = [])
   \<and> (specValidNote (JStr n) \<longrightarrow> length (voiceOf host n now wave) = 1)"
proof -
  have caught: "(\<exists>e. playNote noteName now wave w =
             showNotification ''Failed to play note '' noteName
               (w\<lparr>events := events w @ [LogError ''Failed to play note:'' e]\<rparr>)
         \<and> events (playNote noteName now wave w) =
             events w @ [LogError ''Failed to play note:'' e,
                         ShowNotification ''Failed to play note '' noteName])
      \<and> voices (playNote noteName now wave w) = voices w
      \<and> timerId (playNote noteName now wave w) = timerId w
      \<and> isPlaying (playNote noteName now wave w) = isPlaying w
      \<and> currentColumn (playNote noteName now wave w) = currentColumn w"
    if h: "audioContext w" "\<not> specValidNote noteName"
  proof -
    from playNote_invalid[OF h] obtain e where e: "playNote noteName now wave w =
        showNotification ''Failed to play note '' noteName
          (w\<lparr>events := events w @ [LogError ''Failed to play note:'' e]\<rparr>)" ..
    have ev: "events (playNote noteName now wave w) =
        events w @ [LogError ''Failed to play note:'' e,
                    ShowNotification ''Failed to play note '' noteName]"
      unfolding e by simp
    have vo: "voices (playNote noteName now wave w) = voices w"
      unfolding e by simp
    have f: "timerId (playNote noteName now wave w) = timerId w"
      "isPlaying (playNote noteName now wave w) = isPlaying w"
      "currentColumn (playNote noteName now wave w) = currentColumn w"
      by simp_all
    from e ev vo f show ?thesis by blast
  qed
  have step: "\<exists>w'. playbackStep w = Returned w'
         \<and> voices w' = voices w @
              expectedVoices w [0..<length (notes w)] (currentTime w) (waveSelect w)"
    if h: "isPlaying w" "length (notes w) \<le> length (gridState w)"
      "isNumberInRange (tempoInput w) 1 1000"
  proof -
    from duration_defined[OF h(3)] obtain d where "calculateNoteDuration (tempoInput w) 4 = Inr d" ..
    from playbackStep_playing[OF h(1,2) this] obtain w' where w': "playbackStep w = Returned w'"
      by blast
    with playbackStep_voices[OF h(1,2)] show ?thesis by simp
  qed
  show ?thesis
    using caught step voiceOf_invalid[of n host now wave] voiceOf_valid[of n host now wave]
    by blast
qed

text \<open>
  A step of the session whose first row is named \<open>H4\<close>: both rows are active in column
  0. \<open>playNote\<close> on \<open>H4\<close> logs the error, shows the notification and arms its removal
  under handle 0; the step returns and starts the one voice of \<open>A4\<close>.
\<close>

theorem playNote_contains_invalid_note_witness:
  "audioContext sampleInvalid \<and> \<not> specValidNote (JStr ''H4'')
   \<and> isPlaying sampleInvalid
   \<and> length (notes sampleInvalid) \<le> length (gridState sampleInvalid)
   \<and> isNumberInRange (tempoInput sampleInvalid) 1 1000
   \<and> playNote (JStr ''H4'') 0 ''sine'' sampleInvalid =
       sampleInvalid\<lparr>events := events sampleInvalid @
         [LogError ''Failed to play note:'' (InvalidNoteName ''H''),
          ShowNotification ''Failed to play note '' (JStr ''H4'')],
         activeNotifications := [(''Failed to play note '', JStr ''H4'')],
         notificationContainer := [(''Failed to play note '', JStr ''H4'')],
         timers := [0 \<mapsto> (RemoveNotification (''Failed to play note '', JStr ''H4''), 3000)],
         nextHandle := 1\<rparr>
   \<and> voices (worldOf (playbackStep sampleInvalid)) =
       [\<lparr>frequency = 440, startTime = 0, waveType = ''sine''\<rparr>]
   \<and> voiceOf sampleHost ''H4'' 0 ''sine'' = []"
proof -
  have h: "audioContext sampleInvalid" "\<not> specValidNote (JStr ''H4'')"
    "isPlaying sampleInvalid"
    "length (notes sampleInvalid) \<le> length (gridState sampleInvalid)"
    "isNumberInRange (tempoInput sampleInvalid) 1 1000"
    by (simp_all add: sampleInvalid_def sampleWorld_def specValidNote_def pitchClasses_def
        isNumberInRange_def)
  have n: "noteToFrequency host (JStr ''H4'') = Inl (InvalidNoteName ''H'')" for host
    by (simp add: noteToFrequency_def inNoteMap_def noteMap_def objectPrototypeKeys_def
        parseIntChar_def)
  have a4: "voiceOf sampleHost ''A4'' 0 ''sine''
      = [\<lparr>frequency = 440, startTime = 0, waveType = ''sine''\<rparr>]"
    by (simp add: voiceOf_def noteToFrequency_A4)
  have e: "expectedVoices sampleInvalid [0..<length (notes sampleInvalid)]
             (currentTime sampleInvalid) (waveSelect sampleInvalid)
           = voiceOf sampleHost ''H4'' 0 ''sine'' @ voiceOf sampleHost ''A4'' 0 ''sine''"
    by (simp add: expectedVoices_def sampleInvalid_def sampleWorld_def cellActive_def
        upt_conv_Cons)
  have p: "playNote (JStr ''H4'') 0 ''sine'' sampleInvalid =
       sampleInvalid\<lparr>events := events sampleInvalid @
         [LogError ''Failed to play note:'' (InvalidNoteName ''H''),
          ShowNotification ''Failed to play note '' (JStr ''H4'')],
         activeNotifications := [(''Failed to play note '', JStr ''H4'')],
         notificationContainer := [(''Failed to play note '', JStr ''H4'')],
         timers := [0 \<mapsto> (RemoveNotification (''Failed to play note '', JStr ''H4''), 3000)],
         nextHandle := 1\<rparr>"
    using h(1) n
    by (simp add: playNote_def showNotification_def setTimeout_def sampleInvalid_def
        sampleWorld_def Let_def)
  have v: "voices sampleInvalid = []"
    by (simp add: sampleInvalid_def sampleWorld_def)
  from playNote_contains_invalid_note[of sampleInvalid "JStr ''H4''" 0 "''sine''" "''H4''" sampleHost] h
  have "(\<exists>w'. playbackStep sampleInvalid = Returned w'
           \<and> voices w' = voices sampleInvalid @
                expectedVoices sampleInvalid [0..<length (notes sampleInvalid)]
                  (currentTime sampleInvalid) (waveSelect sampleInvalid))"
    and "voiceOf sampleHost ''H4'' 0 ''sine'' = []"
    by blast+
  then show ?thesis
    using h p e a4 v by auto
qed


section \<open>The note vocabulary\<close>

lemma indexOf_pitchClass: "i < 12 \<Longrightarrow> indexOf (pitchClasses ! i) pitchClasses = i"
proof -
  assume "i < 12"
  then have "i = 0 \<or> i = 1 \<or> i = 2 \<or> i = 3 \<or> i = 4 \<or> i = 5 \<or> i = 6 \<or> i = 7
      \<or> i = 8 \<or> i = 9 \<or> i = 10 \<or> i = 11" by arith
  then show ?thesis
    by (auto simp add: indexOf_def pitchClasses_def)
qed

lemma indexOf_octaveDigit: "k \<le> 8 \<Longrightarrow> indexOf (octaveDigit k) ''012345678'' = k"
proof -
  assume "k \<le> 8"
  then have "k = 0 \<or> k = 1 \<or> k = 2 \<or> k = 3 \<or> k = 4 \<or> k = 5 \<or> k = 6 \<or> k = 7
      \<or> k = 8" by arith
  then show ?thesis
    by (auto simp add: indexOf_def octaveDigit_def)
qed

lemma semitoneOffset_parsed:
  assumes "i < 12" and "k \<le> 8"
  shows "semitoneOffset (pitchClasses ! i @ [octaveDigit k]) = (int k - 4) * 12 + int i - 9"
  using indexOf_pitchClass[OF assms(1)] indexOf_octaveDigit[OF assms(2)]
  by (simp add: semitoneOffset_def)

lemma specFrequency_range:
  fixes s :: int
  assumes "- 57 \<le> s" "s \<le> 50"
  shows "0 < specFrequency s" "specFrequency s \<le> 440 * 2 ^ 5"
proof -
  show "0 < specFrequency s" by (simp add: specFrequency_def)
  have "(of_int s / 12 :: real) \<le> 5" using assms by simp
  then have "(2::real) powr (of_int s / 12) \<le> 2 powr 5"
    by (intro powr_mono) simp_all
  also have "(2::real) powr 5 = 2 ^ 5"
    using powr_realpow[of "2::real" 5] by simp
  finally show "specFrequency s \<le> 440 * 2 ^ 5"
    by (simp add: specFrequency_def)
qed

lemma frequency_range:
  fixes s :: int and \<delta> :: real
  assumes s: "- 57 \<le> s" "s \<le> 50"
    and host: "powWithin \<delta> host (fl (of_int s / 12))" and d: "\<delta> \<le> 1 / 2"
  shows "0 < fl (440 * Math_pow host (fl (of_int s / 12)))
         \<and> fl (440 * Math_pow host (fl (of_int s / 12))) < 2 ^ 15"
proof -
  define f where "f = fl (440 * Math_pow host (fl (of_int s / 12)))"
  define S where "S = specFrequency s"
  define \<epsilon> where "\<epsilon> = \<delta> + (1 + \<delta>) / 2 ^ 49"
  have S: "0 < S" "S \<le> 440 * 2 ^ 5"
    using specFrequency_range[OF s] by (simp_all add: S_def)
  have err: "\<bar>of_rat f - S\<bar> \<le> \<epsilon> * S"
    using frequency_error[OF s host] by (simp add: f_def S_def \<epsilon>_def)
  have "(1 + \<delta>) / 2 ^ 49 \<le> (1 + 1 / 2) / 2 ^ 49"
    using d by (intro divide_right_mono) simp_all
  also have "\<dots> \<le> (1 / 4 :: real)" by simp
  finally have "(1 + \<delta>) / 2 ^ 49 \<le> 1 / 4" .
  with d have e: "\<epsilon> \<le> 3 / 4" unfolding \<epsilon>_def by linarith
  have "\<epsilon> * S \<le> 3 / 4 * S" using e S(1) by (intro mult_right_mono) simp_all
  with err have b: "\<bar>of_rat f - S\<bar> \<le> 3 / 4 * S" by linarith
  from b S have "(0::real) < of_rat f" by linarith
  then have pos: "0 < f" by (simp only: zero_less_of_rat_iff)
  from b have u: "(of_rat f :: real) \<le> S + 3 / 4 * S" by linarith
  have "S \<le> 14080" using S(2) by simp
  with u have "(of_rat f :: real) < 32768" by linarith
  then have "(of_rat f :: real) < 2 ^ 15" by simp
  then have "(of_rat f :: real) < of_rat (2 ^ 15)" by (simp add: of_rat_power)
  then have "f < 2 ^ 15" by (simp only: of_rat_less)
  with pos show ?thesis by (simp add: f_def)
qed

text \<open>
  Claim C10. Every name in \<open>ALL_NOTES\<close> resolves: for every host \<open>noteToFrequency\<close>
  returns a number, the double \<open>440 * Math.pow(2, s / 12)\<close> at the semitone offset \<open>s\<close> of
  the name, and throws nothing. If the host's power at that exponent is within the relative
  error one half of the real power, the number is positive and below \<open>2^15\<close>. Playing
  the active notes of a grid whose rows are named from \<open>ALL_NOTES\<close> therefore logs no
  error and requests no notification.
\<close>

theorem all_notes_resolve:
  "(\<forall>n \<in> set ALL_NOTES.
      \<exists>f. noteToFrequency host (JStr n) = Inr (Num f)
        \<and> f = fl (440 * Math_pow host (fl (of_int (semitoneOffset n) / 12)))
        \<and> (powWithin \<delta> host (fl (of_int (semitoneOffset n) / 12)) \<and> \<delta> \<le> 1 / 2
             \<longrightarrow> 0 < f \<and> f < 2 ^ 15))
   \<and> (audioContext w \<and> set (notes w) \<subseteq> set ALL_NOTES \<longrightarrow>
        events (worldOf (playActiveNotes [0..<length (notes w)] now wave w)) = events w)"
proof -
  have valid: "specValidNote (JStr n)" if "n \<in> set ALL_NOTES" for n
    using all_notes_valid that by (simp add: list_all_iff)
  have a: "\<exists>f. noteToFrequency host (JStr n) = Inr (Num f)
        \<and> f = fl (440 * Math_pow host (fl (of_int (semitoneOffset n) / 12)))
        \<and> (powWithin \<delta> host (fl (of_int (semitoneOffset n) / 12)) \<and> \<delta> \<le> 1 / 2
             \<longrightarrow> 0 < f \<and> f < 2 ^ 15)"
    if "n \<in> set ALL_NOTES" for n
  proof -
    from specValidNote_parts[OF valid[OF that]] obtain i k where
      ik: "i < 12" "k \<le> 8" and n: "n = pitchClasses ! i @ [octaveDigit k]" by auto
    define s where "s = (int k - 4) * 12 + int i - 9"
    have so: "semitoneOffset n = s"
      unfolding n s_def by (rule semitoneOffset_parsed[OF ik])
    have r: "noteToFrequency host (JStr n)
        = Inr (Num (fl (440 * Math_pow host (fl (of_int s / 12)))))"
      unfolding n s_def by (rule noteToFrequency_parsed[OF ik])
    have "- 57 \<le> s" "s \<le> 50"
      using semitone_range[OF ik] by (simp_all add: s_def)
    from frequency_range[OF this]
    have "powWithin \<delta> host (fl (of_int s / 12)) \<and> \<delta> \<le> 1 / 2 \<longrightarrow>
        0 < fl (440 * Math_pow host (fl (of_int s / 12)))
        \<and> fl (440 * Math_pow host (fl (of_int s / 12))) < 2 ^ 15"
      by blast
    with r show ?thesis unfolding so by blast
  qed
  have b: "events (worldOf (playActiveNotes [0..<length (notes w)] now wave w)) = events w"
    if "audioContext w" "set (notes w) \<subseteq> set ALL_NOTES"
  proof (rule playActiveNotes_valid_events[OF that(1)])
    show "\<forall>r\<in>set [0..<length (notes w)]. r < length (notes w) \<and> specValidNote (JStr (notes w ! r))"
      using that(2) valid by (auto simp add: subset_iff)
  qed
  show ?thesis using a b by blast
qed

text \<open>
  The note \<open>A#4\<close> on the sample host, whose power at its exponent is within \<open>2^-49\<close> of
  the real one, and the started sample session.
\<close>

theorem all_notes_resolve_witness:
  "''A#4'' \<in> set ALL_NOTES
   \<and> powWithin (1 / 2 ^ 49) sampleHost (fl (of_int (semitoneOffset ''A#4'') / 12))
   \<and> (1 / 2 ^ 49 :: real) \<le> 1 / 2
   \<and> (\<exists>f. noteToFrequency sampleHost (JStr ''A#4'') = Inr (Num f) \<and> 0 < f \<and> f < 2 ^ 15)
   \<and> audioContext samplePlaying \<and> set (notes samplePlaying) \<subseteq> set ALL_NOTES
   \<and> events (worldOf (playActiveNotes [0..<length (notes samplePlaying)] 0 ''sine'' samplePlaying))
       = events samplePlaying"
proof -
  have h: "''A#4'' \<in> set ALL_NOTES" "audioContext samplePlaying"
    "set (notes samplePlaying) \<subseteq> set ALL_NOTES"
    by code_simp+
  have s: "semitoneOffset ''A#4'' = 1" by code_simp
  have p: "powWithin (1 / 2 ^ 49) sampleHost (fl (of_int (semitoneOffset ''A#4'') / 12))"
    unfolding s by (rule sampleHost_semitone)
  have d: "(1 / 2 ^ 49 :: real) \<le> 1 / 2" by simp
  from all_notes_resolve[of sampleHost "1 / 2 ^ 49" samplePlaying 0 "''sine''"] h p d
  have "\<exists>f. noteToFrequency sampleHost (JStr ''A#4'') = Inr (Num f) \<and> 0 < f \<and> f < 2 ^ 15"
    and "events (worldOf (playActiveNotes [0..<length (notes samplePlaying)] 0 ''sine'' samplePlaying))
       = events samplePlaying"
    by blast+
  with h p d show ?thesis by blast
qed


section \<open>Starting and stopping\<close>

lemma clearTimeout_fields [simp]:
  "isPlaying (clearTimeout h w) = isPlaying w"
  "currentColumn (clearTimeout h w) = currentColumn w"
  "timerId (clearTimeout h w) = timerId w"
  "cols (clearTimeout h w) = cols w"
  "notes (clearTimeout h w) = notes w"
  "gridState (clearTimeout h w) = gridState w"
  "gridInner (clearTimeout h w) = gridInner w"
  "ruler (clearTimeout h w) = ruler w"
  "tempoInput (clearTimeout h w) = tempoInput w"
  "waveSelect (clearTimeout h w) = waveSelect w"
  "playButtonText (clearTimeout h w) = playButtonText w"
  "audioContext (clearTimeout h w) = audioContext w"
  "suspended (clearTimeout h w) = suspended w"
  "currentTime (clearTimeout h w) = currentTime w"
  "voices (clearTimeout h w) = voices w"
  "nextHandle (clearTimeout h w) = nextHandle w"
  "mathPow (clearTimeout h w) = mathPow w"
  "events (clearTimeout h w) = events w"
  by (simp_all add: clearTimeout_def split: option.splits)

lemma clearTimeout_timers:
  "timers (clearTimeout h w) = (case h of None \<Rightarrow> timers w | Some k \<Rightarrow> (timers w)(k := None))"
  by (simp add: clearTimeout_def split: option.splits)

lemma stopPlayback_stopped: "\<not> isPlaying w \<Longrightarrow> stopPlayback w = w"
  by (simp add: stopPlayback_def)

lemma stopPlayback_not_playing: "\<not> isPlaying (stopPlayback w)"
  by (simp add: stopPlayback_def Let_def)

lemma stopPlayback_timers:
  "timers (stopPlayback w) =
     (if isPlaying w then timers (clearTimeout (timerId w) w) else timers w)"
  by (simp add: stopPlayback_def Let_def clearTimeout_timers split: option.splits)

lemma stopPlayback_voices: "voices (stopPlayback w) = voices w"
  by (simp add: stopPlayback_def Let_def)

lemma steps_stopped: "\<not> isPlaying w \<Longrightarrow> steps n w = w"
  by (induction n) (simp_all add: playbackStep_stopped)

text \<open>
  Claim C4. \<open>startPlayback\<close> on a playing session returns the session as it is: the
  cursor is not reset, no step runs, no timer is armed. On a stopped session it sets
  \<open>isPlaying\<close>, puts the cursor at 0 and runs one step before it returns; in a session with
  a row for every note and an accepted tempo that step plays column 0, leaves the cursor at
  \<open>1 mod cols\<close> and arms the next step: the handle it stores in \<open>timerId\<close> is one the
  host hands out during the call, the timer under it calls \<open>playbackStep\<close> after the
  column duration, and every other timer that calls \<open>playbackStep\<close> was there before.
\<close>

theorem startPlayback_cases:
  "(isPlaying w \<longrightarrow> startPlayback w = Returned w)
   \<and> (\<not> isPlaying w \<longrightarrow>
        startPlayback w =
          playbackStep ((ensureAudioContext (w\<lparr>isPlaying := True\<rparr>))
                          \<lparr>playButtonText := ''Stop'', currentColumn := 0\<rparr>))
   \<and> (\<not> isPlaying w \<and> 0 < cols w \<and> length (notes w) \<le> length (gridState w)
        \<and> calculateNoteDuration (tempoInput w) 4 = Inr d \<longrightarrow>
        (\<exists>w' h. startPlayback w = Returned w' \<and> isPlaying w'
           \<and> currentColumn w' = 1 mod cols w
           \<and> voices w' = voices w @
                expectedVoices (w\<lparr>currentColumn := 0\<rparr>) [0..<length (notes w)]
                  (currentTime w) (waveSelect w)
           \<and> timerId w' = Some h \<and> nextHandle w \<le> h
           \<and> timers w' h = Some (PlaybackStep, d)
           \<and> (\<forall>k c. k \<noteq> h \<and> timers w' k = Some (PlaybackStep, c)
                 \<longrightarrow> timers w k = Some (PlaybackStep, c))))"
proof -
  let ?p = "(ensureAudioContext (w\<lparr>isPlaying := True\<rparr>))
              \<lparr>playButtonText := ''Stop'', currentColumn := 0\<rparr>"
  have a: "startPlayback w = Returned w" if "isPlaying w"
    using that by (simp add: startPlayback_def)
  have b: "startPlayback w = playbackStep ?p" if "\<not> isPlaying w"
    using that by (simp add: startPlayback_def)
  have c: "\<exists>w' h. startPlayback w = Returned w' \<and> isPlaying w'
           \<and> currentColumn w' = 1 mod cols w
           \<and> voices w' = voices w @
                expectedVoices (w\<lparr>currentColumn := 0\<rparr>) [0..<length (notes w)]
                  (currentTime w) (waveSelect w)
           \<and> timerId w' = Some h \<and> nextHandle w \<le> h
           \<and> timers w' h = Some (PlaybackStep, d)
           \<and> (\<forall>k c. k \<noteq> h \<and> timers w' k = Some (PlaybackStep, c)
                 \<longrightarrow> timers w k = Some (PlaybackStep, c))"
    if h: "\<not> isPlaying w" "0 < cols w" "length (notes w) \<le> length (gridState w)"
      "calculateNoteDuration (tempoInput w) 4 = Inr d"
  proof -
    have p: "isPlaying ?p" "length (notes ?p) \<le> length (gridState ?p)"
      "calculateNoteDuration (tempoInput ?p) 4 = Inr d"
      using h by simp_all
    from playbackStep_playing[OF p] obtain w' k where w': "playbackStep ?p = Returned w'"
      "isPlaying w'" "currentColumn w' = jsRem (currentColumn ?p + 1) (cols ?p)"
      "timerId w' = Some k" "nextHandle ?p \<le> k" "timers w' k = Some (PlaybackStep, d)"
      and others: "\<forall>j c. j \<noteq> k \<and> timers w' j = Some (PlaybackStep, c)
                 \<longrightarrow> timers ?p j = Some (PlaybackStep, c)"
      by blast
    have v: "voices w' = voices ?p @
        expectedVoices ?p [0..<length (notes ?p)] (currentTime ?p) (waveSelect ?p)"
      using playbackStep_voices[OF p(1,2)] w'(1) by simp
    have e: "expectedVoices ?p [0..<length (notes w)] (currentTime w) (waveSelect w)
        = expectedVoices (w\<lparr>currentColumn := 0\<rparr>) [0..<length (notes w)] (currentTime w) (waveSelect w)"
      by (rule expectedVoices_cong) simp_all
    have j: "jsRem 1 (cols w) = 1 mod cols w"
      using h(2) by (intro jsRem_mod) simp_all
    have f: "startPlayback w = Returned w'" "isPlaying w'" "currentColumn w' = 1 mod cols w"
      "voices w' = voices w @
         expectedVoices (w\<lparr>currentColumn := 0\<rparr>) [0..<length (notes w)]
           (currentTime w) (waveSelect w)"
      "timerId w' = Some k" "nextHandle w \<le> k" "timers w' k = Some (PlaybackStep, d)"
      using w' v e j b[OF h(1)] by simp_all
    have o: "\<forall>j c. j \<noteq> k \<and> timers w' j = Some (PlaybackStep, c)
                 \<longrightarrow> timers w j = Some (PlaybackStep, c)"
      using others by simp
    from f o show ?thesis by blast
  qed
  show ?thesis using a b c by blast
qed

text \<open>
  Starting the sample session whose first row is named \<open>H4\<close>, stopped: the first step
  arms the removal of the notification under handle 0 and the next step under handle 1,
  which is the handle it stores. Starting the started sample session changes nothing.
\<close>

theorem startPlayback_cases_witness:
  "\<not> isPlaying (sampleInvalid\<lparr>isPlaying := False\<rparr>)
   \<and> 0 < cols (sampleInvalid\<lparr>isPlaying := False\<rparr>)
   \<and> length (notes (sampleInvalid\<lparr>isPlaying := False\<rparr>))
        \<le> length (gridState (sampleInvalid\<lparr>isPlaying := False\<rparr>))
   \<and> calculateNoteDuration (tempoInput (sampleInvalid\<lparr>isPlaying := False\<rparr>)) 4 = Inr 125
   \<and> (\<exists>w'. startPlayback (sampleInvalid\<lparr>isPlaying := False\<rparr>) = Returned w'
         \<and> isPlaying w' \<and> currentColumn w' = 1
         \<and> timerId w' = Some 1 \<and> timers w' 1 = Some (PlaybackStep, 125)
         \<and> timers w' 0
              = Some (RemoveNotification (''Failed to play note '', JStr ''H4''), 3000))
   \<and> isPlaying samplePlaying
   \<and> startPlayback samplePlaying = Returned samplePlaying"
proof -
  let ?s = "sampleInvalid\<lparr>isPlaying := False\<rparr>"
  have h: "\<not> isPlaying ?s" "0 < cols ?s" "length (notes ?s) \<le> length (gridState ?s)"
    "calculateNoteDuration (tempoInput ?s) 4 = Inr 125" "cols ?s = 16"
    by (simp_all add: sampleInvalid_def sampleWorld_def duration_120)
  have t: "timerId (worldOf (startPlayback ?s)) = Some 1"
    "timers (worldOf (startPlayback ?s)) 0
       = Some (RemoveNotification (''Failed to play note '', JStr ''H4''), 3000)"
    by code_simp+
  have p: "isPlaying samplePlaying" by code_simp
  from startPlayback_cases[of ?s 125] h
  obtain w' k where w': "startPlayback ?s = Returned w'" "isPlaying w'"
    "currentColumn w' = 1 mod cols ?s" "timerId w' = Some k"
    "timers w' k = Some (PlaybackStep, 125)"
    by blast
  from w'(1,4) t(1) have k: "k = 1" by simp
  have "startPlayback ?s = Returned w' \<and> isPlaying w' \<and> currentColumn w' = 1
         \<and> timerId w' = Some 1 \<and> timers w' 1 = Some (PlaybackStep, 125)
         \<and> timers w' 0
              = Some (RemoveNotification (''Failed to play note '', JStr ''H4''), 3000)"
    using w' t k h(5) by simp
  then have e: "\<exists>w'. startPlayback ?s = Returned w' \<and> isPlaying w' \<and> currentColumn w' = 1
         \<and> timerId w' = Some 1 \<and> timers w' 1 = Some (PlaybackStep, 125)
         \<and> timers w' 0
              = Some (RemoveNotification (''Failed to play note '', JStr ''H4''), 3000)"
    by (rule exI[where x = w'])
  have "startPlayback samplePlaying = Returned samplePlaying"
    using startPlayback_cases[of samplePlaying 125] p by blast
  with h(1-4) e p show ?thesis by blast
qed


section \<open>Stopping twice\<close>

text \<open>
  Claim C5. \<open>stopPlayback\<close> is idempotent: a second call changes nothing, and the
  session is stopped after each call. On a session that is already stopped it is the
  identity. Two calls in a row cancel at most one pending timer, and arm none.
\<close>

theorem stopPlayback_idempotent:
  "stopPlayback (stopPlayback w) = stopPlayback w
   \<and> \<not> isPlaying (stopPlayback w)
   \<and> \<not> isPlaying (stopPlayback (stopPlayback w))
   \<and> (\<not> isPlaying w \<longrightarrow> stopPlayback w = w)
   \<and> card (dom (timers w) - dom (timers (stopPlayback (stopPlayback w)))) \<le> 1
   \<and> timers (stopPlayback (stopPlayback w)) \<subseteq>\<^sub>m timers w"
proof -
  have twice: "stopPlayback (stopPlayback w) = stopPlayback w"
    by (rule stopPlayback_stopped) (rule stopPlayback_not_playing)
  have sub: "dom (timers w) - dom (timers (stopPlayback w)) \<subseteq> {the (timerId w)}"
    by (auto simp add: stopPlayback_timers clearTimeout_timers split: option.splits if_splits)
  have "card (dom (timers w) - dom (timers (stopPlayback w))) \<le> card {the (timerId w)}"
    by (rule card_mono[OF _ sub]) simp
  then have one: "card (dom (timers w) - dom (timers (stopPlayback w))) \<le> 1" by simp
  have le: "timers (stopPlayback w) \<subseteq>\<^sub>m timers w"
    by (auto simp add: stopPlayback_timers clearTimeout_timers map_le_def
        split: option.splits if_splits)
  show ?thesis
    using twice one le stopPlayback_not_playing[of w] stopPlayback_stopped[of w]
    by simp
qed

text \<open>The theorem on the stopped sample session and on the started one.\<close>

theorem stopPlayback_idempotent_witness:
  "\<not> isPlaying sampleWorld \<and> stopPlayback sampleWorld = sampleWorld
   \<and> stopPlayback (stopPlayback samplePlaying) = stopPlayback samplePlaying
   \<and> \<not> isPlaying (stopPlayback samplePlaying)"
proof -
  have "\<not> isPlaying sampleWorld" by (simp add: sampleWorld_def)
  then show ?thesis
    using stopPlayback_idempotent[of sampleWorld] stopPlayback_idempotent[of samplePlaying]
    by simp
qed


section \<open>A step that fires after the stop\<close>

text \<open>
  Claim C7. After \<open>stopPlayback\<close> the session is not playing, and a step callback that
  fires all the same returns at its guard with the state unchanged: it throws nothing,
  starts no voice and touches no highlight, however often it fires. The timer that was
  pending when \<open>stopPlayback\<close> was called is cancelled.
\<close>

theorem step_after_stop_is_silent:
  "\<not> isPlaying (stopPlayback w)
   \<and> playbackStep (stopPlayback w) = Returned (stopPlayback w)
   \<and> steps n (stopPlayback w) = stopPlayback w
   \<and> voices (steps n (stopPlayback w)) = voices w
   \<and> (isPlaying w \<and> timerId w = Some h \<longrightarrow> timers (stopPlayback w) h = None)"
  using stopPlayback_not_playing[of w]
  by (simp add: playbackStep_stopped steps_stopped stopPlayback_voices stopPlayback_timers
      clearTimeout_timers)

text \<open>The started sample session has timer 0 pending; stopping it cancels that timer.\<close>

theorem step_after_stop_is_silent_witness:
  "isPlaying samplePlaying \<and> timerId samplePlaying = Some 0
   \<and> timers samplePlaying 0 = Some (PlaybackStep, 125)
   \<and> timers (stopPlayback samplePlaying) 0 = None
   \<and> playbackStep (stopPlayback samplePlaying) = Returned (stopPlayback samplePlaying)
   \<and> steps 3 (stopPlayback samplePlaying) = stopPlayback samplePlaying"
proof -
  have h: "isPlaying samplePlaying" "timerId samplePlaying = Some 0"
    "timers samplePlaying 0 = Some (PlaybackStep, 125)"
    by code_simp+
  show ?thesis
    using step_after_stop_is_silent[of samplePlaying 3 0] h by simp
qed


end
